theory Spec2Isabelle
  imports Main
begin

section \<open>The juicebox persistence layer (db/index.js)\<close>

text \<open>
  The module talks to one relational store through a single client. The store is
  modelled as a record of its four tables and of the three serial sequences that
  issue the surrogate keys; every exported function of db/index.js becomes a function
  that takes the store and returns its result together with the store it leaves
  behind. A rejected promise is the left injection of a sum type.
\<close>

subsection \<open>Errors\<close>

text \<open>
  \<open>PostNotFoundError\<close> is the object thrown by getPostById, \<open>TypeError\<close> is what the
  JavaScript runtime throws when a method is called on \<open>undefined\<close> or on a value that
  lacks it, and \<open>StoreFailure\<close> is any error the store reports for a statement.
\<close>

datatype error = PostNotFoundError | TypeError | StoreFailure

subsection \<open>JavaScript values handed back to callers\<close>

datatype jsval =
    JUndefined
  | JNum nat
  | JStr string
  | JArr "jsval list"
  | JObj "(string \<times> jsval) list"

type_synonym obj = "(string \<times> jsval) list"

definition obj_keys :: "obj \<Rightarrow> string list" where
  "obj_keys ob = map fst ob"

text \<open>\<open>ob.k = v\<close>: an existing key keeps its place, a new key goes last.\<close>

fun set_prop :: "string \<Rightarrow> jsval \<Rightarrow> obj \<Rightarrow> obj" where
  "set_prop k v [] = [(k, v)]"
| "set_prop k v ((k', v') # ob) =
     (if k' = k then (k, v) # ob else (k', v') # set_prop k v ob)"

text \<open>\<open>delete ob.k\<close>.\<close>

definition delete_prop :: "string \<Rightarrow> (string \<times> 'v) list \<Rightarrow> (string \<times> 'v) list" where
  "delete_prop k ob = filter (\<lambda>kv. fst kv \<noteq> k) ob"

text \<open>
  Whether a key occurs anywhere in a value: in the object itself, in an object nested
  under one of its keys, or in an element of an array.
\<close>

fun exposes :: "string \<Rightarrow> jsval \<Rightarrow> bool"
  and exposes_list :: "string \<Rightarrow> jsval list \<Rightarrow> bool"
  and exposes_obj :: "string \<Rightarrow> (string \<times> jsval) list \<Rightarrow> bool" where
  "exposes k JUndefined = False"
| "exposes k (JNum n) = False"
| "exposes k (JStr s) = False"
| "exposes k (JArr vs) = exposes_list k vs"
| "exposes k (JObj ob) = exposes_obj k ob"
| "exposes_list k [] = False"
| "exposes_list k (v # vs) = (exposes k v \<or> exposes_list k vs)"
| "exposes_obj k [] = False"
| "exposes_obj k ((k', v) # ob) = (k' = k \<or> exposes k v \<or> exposes_obj k ob)"

subsection \<open>The store\<close>

text \<open>
  Modelled from the spec: the schema (the file that creates the tables is not part of
  the sources). Section 6 of the specification gives
  \<open>users(id pk, username unique not null, password not null, name, location)\<close>,
  \<open>posts(id pk, authorId fk users.id, title, content)\<close>,
  \<open>tags(id pk, name unique not null)\<close> and
  \<open>post_tags(postId fk posts.id, tagId fk tags.id, unique(postId, tagId))\<close>.
  The surrogate keys are serial: each table has a sequence, and an insert draws the
  next value from it whether or not the row is then kept.
\<close>

record user_row =
  u_id :: nat
  u_username :: string
  u_password :: string
  u_name :: string
  u_location :: string

record post_row =
  p_id :: nat
  p_authorId :: nat
  p_title :: string
  p_content :: string

record tag_row =
  t_id :: nat
  t_name :: string

record db =
  users :: "user_row list"
  users_seq :: nat
  posts :: "post_row list"
  posts_seq :: nat
  tags :: "tag_row list"
  tags_seq :: nat
  post_tags :: "(nat \<times> nat) list"

text \<open>The constraints of the schema, as a predicate on the store.\<close>

definition wf_users :: "db \<Rightarrow> bool" where
  "wf_users d \<longleftrightarrow>
     distinct (map u_id (users d)) \<and> distinct (map u_username (users d)) \<and>
     list_all (\<lambda>u. u_id u \<le> users_seq d) (users d)"

definition wf_posts :: "db \<Rightarrow> bool" where
  "wf_posts d \<longleftrightarrow>
     distinct (map p_id (posts d)) \<and>
     list_all (\<lambda>p. p_id p \<le> posts_seq d) (posts d) \<and>
     list_all (\<lambda>p. p_authorId p \<in> set (map u_id (users d))) (posts d)"

definition wf_tags :: "db \<Rightarrow> bool" where
  "wf_tags d \<longleftrightarrow>
     distinct (map t_id (tags d)) \<and> distinct (map t_name (tags d)) \<and>
     list_all (\<lambda>t. t_id t \<le> tags_seq d) (tags d)"

definition wf_post_tags :: "db \<Rightarrow> bool" where
  "wf_post_tags d \<longleftrightarrow>
     distinct (post_tags d) \<and>
     list_all (\<lambda>r. fst r \<in> set (map p_id (posts d)) \<and> snd r \<in> set (map t_id (tags d)))
       (post_tags d)"

definition wf_db :: "db \<Rightarrow> bool" where
  "wf_db d \<longleftrightarrow> wf_users d \<and> wf_posts d \<and> wf_tags d \<and> wf_post_tags d"

text \<open>What a query returns for a row: one object per row, one key per selected column.\<close>

definition user_star :: "user_row \<Rightarrow> obj" where
  "user_star u =
     [(''id'', JNum (u_id u)), (''username'', JStr (u_username u)),
      (''password'', JStr (u_password u)), (''name'', JStr (u_name u)),
      (''location'', JStr (u_location u))]"

text \<open>\<open>select id, username, name, location\<close>\<close>

definition user_summary :: "user_row \<Rightarrow> obj" where
  "user_summary u =
     [(''id'', JNum (u_id u)), (''username'', JStr (u_username u)),
      (''name'', JStr (u_name u)), (''location'', JStr (u_location u))]"

text \<open>\<open>select id, name, username, location\<close>\<close>

definition user_by_id_cols :: "user_row \<Rightarrow> obj" where
  "user_by_id_cols u =
     [(''id'', JNum (u_id u)), (''name'', JStr (u_name u)),
      (''username'', JStr (u_username u)), (''location'', JStr (u_location u))]"

definition post_star :: "post_row \<Rightarrow> obj" where
  "post_star p =
     [(''id'', JNum (p_id p)), (''authorId'', JNum (p_authorId p)),
      (''title'', JStr (p_title p)), (''content'', JStr (p_content p))]"

definition tag_star :: "tag_row \<Rightarrow> obj" where
  "tag_star t = [(''id'', JNum (t_id t)), (''name'', JStr (t_name t))]"

text \<open>\<open>const { rows: [x] } = ...\<close>: the first row, or \<open>undefined\<close>.\<close>

definition first_row :: "obj list \<Rightarrow> jsval" where
  "first_row rs = (case rs of [] \<Rightarrow> JUndefined | r # _ \<Rightarrow> JObj r)"

subsection \<open>Field mappings and the generated SET clause\<close>

text \<open>
  The \<open>fields\<close> argument of updateUser and updatePost is an object whose keys are used
  as column names. Its values are numbers, strings or arrays of strings.
\<close>

datatype fval = VInt nat | VText string | VList "string list"

type_synonym fields = "(string \<times> fval) list"

fun show_nat :: "nat \<Rightarrow> string" where
  "show_nat n =
     (if n < 10 then [char_of (48 + n)]
      else show_nat (n div 10) @ [char_of (48 + n mod 10)])"

fun join :: "string \<Rightarrow> string list \<Rightarrow> string" where
  "join sep [] = []"
| "join sep [x] = x"
| "join sep (x # y # xs) = x @ sep @ join sep (y # xs)"

text \<open>\<open>Object.keys(fields).map((key, idx) => `"${key}"=$${idx + 1}`).join(", ")\<close>\<close>

definition setString :: "fields \<Rightarrow> string" where
  "setString fs =
     join '', ''
       (map (\<lambda>(key, idx). ''\"'' @ key @ ''\"=$'' @ show_nat (idx + 1))
            (zip (map fst fs) [0 ..< length fs]))"

text \<open>
  How the store reads a parameter for a column: a text column takes a string, or a
  number in its decimal form; an integer column takes a number. Anything else is
  rejected (the store's own parsing of a string given for an integer column is not
  modelled).
\<close>

definition as_text :: "fval \<Rightarrow> string option" where
  "as_text v = (case v of VText s \<Rightarrow> Some s | VInt n \<Rightarrow> Some (show_nat n) | VList xs \<Rightarrow> None)"

definition as_int :: "fval \<Rightarrow> nat option" where
  "as_int v = (case v of VInt n \<Rightarrow> Some n | VText s \<Rightarrow> None | VList xs \<Rightarrow> None)"

text \<open>
  The SET clause as the store reads it: every key must name a column, once, and every
  value must fit its column.
\<close>

fun assignments :: "(string \<Rightarrow> fval \<Rightarrow> ('r \<Rightarrow> 'r) option) \<Rightarrow> fields \<Rightarrow> ('r \<Rightarrow> 'r) option" where
  "assignments col [] = Some (\<lambda>r. r)"
| "assignments col ((k, v) # fs) =
     (case col k v of
        None \<Rightarrow> None
      | Some f \<Rightarrow> (case assignments col fs of None \<Rightarrow> None | Some g \<Rightarrow> Some (g \<circ> f)))"

definition set_clause :: "(string \<Rightarrow> fval \<Rightarrow> ('r \<Rightarrow> 'r) option) \<Rightarrow> fields \<Rightarrow> ('r \<Rightarrow> 'r) option" where
  "set_clause col fs = (if distinct (map fst fs) then assignments col fs else None)"

subsection \<open>Users\<close>

text \<open>\<open>select id, username, name, location from users\<close>\<close>

definition getAllUsers :: "db \<Rightarrow> error + jsval" where
  "getAllUsers d = Inr (JArr (map (\<lambda>u. JObj (user_summary u)) (users d)))"

text \<open>
  \<open>insert into users (username, password, name, location) values ($1, $2, $3, $4)
  on conflict (username) do nothing returning *\<close>
\<close>

definition insert_user :: "db \<Rightarrow> string \<Rightarrow> string \<Rightarrow> string \<Rightarrow> string \<Rightarrow> (error + user_row list) \<times> db" where
  "insert_user d username password name location =
     (let nid = users_seq d + 1;
          d1 = d\<lparr>users_seq := nid\<rparr>;
          row = \<lparr>u_id = nid, u_username = username, u_password = password,
                 u_name = name, u_location = location\<rparr>
      in if list_ex (\<lambda>u. u_username u = username) (users d) then (Inr [], d1)
         else if list_ex (\<lambda>u. u_id u = nid) (users d) then (Inl StoreFailure, d1)
         else (Inr [row], d1\<lparr>users := users d @ [row]\<rparr>))"

record user_input =
  username :: string
  password :: string
  name :: string
  location :: string

definition createUser :: "db \<Rightarrow> user_input \<Rightarrow> (error + jsval) \<times> db" where
  "createUser d a =
     (case insert_user d (username a) (password a) (name a) (location a) of
        (Inl err, d') \<Rightarrow> (Inl err, d')
      | (Inr rows, d') \<Rightarrow> (Inr (first_row (map user_star rows)), d'))"

definition user_column :: "string \<Rightarrow> fval \<Rightarrow> (user_row \<Rightarrow> user_row) option" where
  "user_column k v =
     (if k = ''id'' then map_option (\<lambda>n u. u\<lparr>u_id := n\<rparr>) (as_int v)
      else if k = ''username'' then map_option (\<lambda>s u. u\<lparr>u_username := s\<rparr>) (as_text v)
      else if k = ''password'' then map_option (\<lambda>s u. u\<lparr>u_password := s\<rparr>) (as_text v)
      else if k = ''name'' then map_option (\<lambda>s u. u\<lparr>u_name := s\<rparr>) (as_text v)
      else if k = ''location'' then map_option (\<lambda>s u. u\<lparr>u_location := s\<rparr>) (as_text v)
      else None)"

text \<open>\<open>update users set ... where id=${id} returning *\<close>\<close>

definition update_users :: "db \<Rightarrow> nat \<Rightarrow> fields \<Rightarrow> (error + user_row list) \<times> db" where
  "update_users d userId fs =
     (case set_clause user_column fs of
        None \<Rightarrow> (Inl StoreFailure, d)
      | Some f \<Rightarrow>
          (let us = map (\<lambda>u. if u_id u = userId then f u else u) (users d)
           in if distinct (map u_id us) \<and> distinct (map u_username us) \<and>
                 list_all (\<lambda>p. p_authorId p \<in> set (map u_id us)) (posts d)
              then (Inr (map f (filter (\<lambda>u. u_id u = userId) (users d))), d\<lparr>users := us\<rparr>)
              else (Inl StoreFailure, d)))"

definition updateUser :: "db \<Rightarrow> nat \<Rightarrow> fields \<Rightarrow> (error + jsval) \<times> db" where
  "updateUser d userId fs =
     (if length (setString fs) = 0 then (Inr JUndefined, d)
      else (case update_users d userId fs of
              (Inl err, d') \<Rightarrow> (Inl err, d')
            | (Inr rows, d') \<Rightarrow> (Inr (first_row (map user_star rows)), d')))"

text \<open>\<open>SELECT * FROM users WHERE username=$1\<close>\<close>

definition getUserByUsername :: "db \<Rightarrow> string \<Rightarrow> error + jsval" where
  "getUserByUsername d un =
     Inr (first_row (map user_star (filter (\<lambda>u. u_username u = un) (users d))))"

subsection \<open>Reading a post with its tags and its author\<close>

text \<open>\<open>await Promise.all(...)\<close> over reads: the list of results, or the first rejection.\<close>

fun promise_all :: "(error + 'a) list \<Rightarrow> error + 'a list" where
  "promise_all [] = Inr []"
| "promise_all (Inl err # rs) = Inl err"
| "promise_all (Inr x # rs) = (case promise_all rs of Inl err \<Rightarrow> Inl err | Inr xs \<Rightarrow> Inr (x # xs))"

text \<open>
  \<open>SELECT tags.* FROM tags JOIN post_tags ON tags.id=post_tags."tagId"
  WHERE post_tags."postId"=$1\<close>
\<close>

definition select_tags_of_post :: "db \<Rightarrow> nat \<Rightarrow> tag_row list" where
  "select_tags_of_post d postId =
     concat (map (\<lambda>t. map (\<lambda>r. t) (filter (\<lambda>r. t_id t = snd r \<and> fst r = postId) (post_tags d)))
                 (tags d))"

definition getPostById :: "db \<Rightarrow> nat \<Rightarrow> error + jsval" where
  "getPostById d postId =
     (case filter (\<lambda>p. p_id p = postId) (posts d) of
        [] \<Rightarrow> Inl PostNotFoundError
      | post # _ \<Rightarrow>
          (let tags = map (\<lambda>t. JObj (tag_star t)) (select_tags_of_post d postId);
               author = first_row (map user_summary
                          (filter (\<lambda>u. u_id u = p_authorId post) (users d)))
           in Inr (JObj (delete_prop ''authorId''
                     (set_prop ''author'' author
                        (set_prop ''tags'' (JArr tags) (post_star post)))))))"

text \<open>\<open>select id from posts\<close>\<close>

definition getAllPosts :: "db \<Rightarrow> error + jsval" where
  "getAllPosts d =
     map_sum (\<lambda>err. err) JArr (promise_all (map (\<lambda>p. getPostById d (p_id p)) (posts d)))"

text \<open>\<open>select id from posts where posts."authorId"=${userId}\<close>\<close>

definition getPostsByUser :: "db \<Rightarrow> nat \<Rightarrow> error + jsval" where
  "getPostsByUser d userId =
     map_sum (\<lambda>err. err) JArr
       (promise_all (map (\<lambda>p. getPostById d (p_id p))
                         (filter (\<lambda>p. p_authorId p = userId) (posts d))))"

text \<open>
  \<open>select posts.id from posts join post_tags on posts.id=post_tags."postId"
  join tags on tags.id=post_tags."tagId" where tags.name=$1\<close>
\<close>

definition select_post_ids_by_tag :: "db \<Rightarrow> string \<Rightarrow> nat list" where
  "select_post_ids_by_tag d tagName =
     concat (map (\<lambda>p.
       concat (map (\<lambda>r.
         map (\<lambda>t. p_id p)
             (filter (\<lambda>t. t_id t = snd r \<and> t_name t = tagName) (tags d)))
         (filter (\<lambda>r. fst r = p_id p) (post_tags d))))
       (posts d))"

definition getPostsByTagName :: "db \<Rightarrow> string \<Rightarrow> error + jsval" where
  "getPostsByTagName d tagName =
     map_sum (\<lambda>err. err) JArr
       (promise_all (map (getPostById d) (select_post_ids_by_tag d tagName)))"

text \<open>
  \<open>select id, name, username, location from users where id=${userId}\<close>; a user whose
  id is falsy (0) is treated as no user.
\<close>

definition getUserById :: "db \<Rightarrow> nat \<Rightarrow> error + jsval" where
  "getUserById d userId =
     (case filter (\<lambda>u. u_id u = userId) (users d) of
        [] \<Rightarrow> Inr JUndefined
      | user # _ \<Rightarrow>
          (if u_id user = 0 then Inr JUndefined
           else (case getPostsByUser d (u_id user) of
                   Inl err \<Rightarrow> Inl err
                 | Inr posts' \<Rightarrow> Inr (JObj (set_prop ''posts'' posts' (user_by_id_cols user))))))"

subsection \<open>Tags\<close>

text \<open>
  \<open>insert into tags(name) values ($1), ($2), ... on conflict (name) do nothing\<close>: the
  rows are tried in order; a name already in the table, or inserted earlier by the same
  statement, is skipped; a clash on the primary key fails the statement.
\<close>

fun insert_tag_rows :: "tag_row list \<Rightarrow> nat \<Rightarrow> string list \<Rightarrow> error option \<times> tag_row list \<times> nat" where
  "insert_tag_rows ts sq [] = (None, ts, sq)"
| "insert_tag_rows ts sq (n # ns) =
     (if list_ex (\<lambda>t. t_name t = n) ts then insert_tag_rows ts (sq + 1) ns
      else if list_ex (\<lambda>t. t_id t = sq + 1) ts then (Some StoreFailure, ts, sq + 1)
      else insert_tag_rows (ts @ [\<lparr>t_id = sq + 1, t_name = n\<rparr>]) (sq + 1) ns)"

text \<open>A failed statement leaves the table as it was; the sequence is not rolled back.\<close>

definition insert_tags :: "db \<Rightarrow> string list \<Rightarrow> (error + unit) \<times> db" where
  "insert_tags d tagList =
     (case insert_tag_rows (tags d) (tags_seq d) tagList of
        (Some err, ts, sq) \<Rightarrow> (Inl err, d\<lparr>tags_seq := sq\<rparr>)
      | (None, ts, sq) \<Rightarrow> (Inr (), d\<lparr>tags := ts, tags_seq := sq\<rparr>))"

text \<open>\<open>select * from tags where tags.name in ($1, $2, ...)\<close>\<close>

definition select_tags_in :: "db \<Rightarrow> string list \<Rightarrow> tag_row list" where
  "select_tags_in d tagList = filter (\<lambda>t. t_name t \<in> set tagList) (tags d)"

text \<open>The result \<open>None\<close> is the \<open>undefined\<close> of the bare \<open>return\<close>.\<close>

definition createTags :: "db \<Rightarrow> string list \<Rightarrow> (error + tag_row list option) \<times> db" where
  "createTags d tagList =
     (if length tagList = 0 then (Inr None, d)
      else (case insert_tags d tagList of
              (Inl err, d1) \<Rightarrow> (Inl err, d1)
            | (Inr u, d1) \<Rightarrow> (Inr (Some (select_tags_in d1 tagList)), d1)))"

subsection \<open>The join table\<close>

text \<open>
  \<open>insert into post_tags("postId", "tagId") values ($1, $2)
  on conflict ("postId", "tagId") do nothing\<close>
\<close>

definition createPostTag :: "db \<Rightarrow> nat \<Rightarrow> nat \<Rightarrow> (error + unit) \<times> db" where
  "createPostTag d postId tagId =
     (if (postId, tagId) \<in> set (post_tags d) then (Inr (), d)
      else if postId \<in> set (map p_id (posts d)) \<and> tagId \<in> set (map t_id (tags d))
      then (Inr (), d\<lparr>post_tags := post_tags d @ [(postId, tagId)]\<rparr>)
      else (Inl StoreFailure, d))"

text \<open>
  \<open>tagList.map((tag) => createPostTag(postId, tag.id))\<close> followed by \<open>Promise.all\<close>: every
  insert is issued, in the order of the list, and the first rejection, if any, is the
  one that is thrown.
\<close>

fun createPostTagPromises :: "db \<Rightarrow> nat \<Rightarrow> tag_row list \<Rightarrow> error option \<times> db" where
  "createPostTagPromises d postId [] = (None, d)"
| "createPostTagPromises d postId (tag # rest) =
     (case createPostTag d postId (t_id tag) of
        (r, d1) \<Rightarrow>
          (case createPostTagPromises d1 postId rest of
             (e, d2) \<Rightarrow> ((case r of Inl err \<Rightarrow> Some err | Inr u \<Rightarrow> e), d2)))"

text \<open>Calling \<open>map\<close> on \<open>undefined\<close> throws a TypeError.\<close>

definition addTagsToPost :: "db \<Rightarrow> nat \<Rightarrow> tag_row list option \<Rightarrow> (error + jsval) \<times> db" where
  "addTagsToPost d postId tagList =
     (case tagList of
        None \<Rightarrow> (Inl TypeError, d)
      | Some tgs \<Rightarrow>
          (case createPostTagPromises d postId tgs of
             (Some err, d1) \<Rightarrow> (Inl err, d1)
           | (None, d1) \<Rightarrow> (getPostById d1 postId, d1)))"

subsection \<open>Writing posts\<close>

text \<open>\<open>INSERT INTO posts("authorId", title, content) VALUES($1, $2, $3) RETURNING *\<close>\<close>

definition insert_post :: "db \<Rightarrow> nat \<Rightarrow> string \<Rightarrow> string \<Rightarrow> (error + post_row) \<times> db" where
  "insert_post d authorId title content =
     (let nid = posts_seq d + 1;
          d1 = d\<lparr>posts_seq := nid\<rparr>;
          row = \<lparr>p_id = nid, p_authorId = authorId, p_title = title, p_content = content\<rparr>
      in if list_ex (\<lambda>p. p_id p = nid) (posts d) then (Inl StoreFailure, d1)
         else if authorId \<notin> set (map u_id (users d)) then (Inl StoreFailure, d1)
         else (Inr row, d1\<lparr>posts := posts d @ [row]\<rparr>))"

text \<open>
  \<open>createPost({ authorId, title, content, tags = [] })\<close>: the last argument is \<open>None\<close> when
  the caller leaves \<open>tags\<close> out.
\<close>

definition createPost :: "db \<Rightarrow> nat \<Rightarrow> string \<Rightarrow> string \<Rightarrow> string list option \<Rightarrow> (error + jsval) \<times> db" where
  "createPost d authorId title content tagsArg =
     (let tagNames = (case tagsArg of None \<Rightarrow> [] | Some ns \<Rightarrow> ns)
      in case insert_post d authorId title content of
           (Inl err, d1) \<Rightarrow> (Inl err, d1)
         | (Inr post, d1) \<Rightarrow>
             (case createTags d1 tagNames of
                (Inl err, d2) \<Rightarrow> (Inl err, d2)
              | (Inr tagList, d2) \<Rightarrow> addTagsToPost d2 (p_id post) tagList))"

definition post_column :: "string \<Rightarrow> fval \<Rightarrow> (post_row \<Rightarrow> post_row) option" where
  "post_column k v =
     (if k = ''id'' then map_option (\<lambda>n p. p\<lparr>p_id := n\<rparr>) (as_int v)
      else if k = ''authorId'' then map_option (\<lambda>n p. p\<lparr>p_authorId := n\<rparr>) (as_int v)
      else if k = ''title'' then map_option (\<lambda>s p. p\<lparr>p_title := s\<rparr>) (as_text v)
      else if k = ''content'' then map_option (\<lambda>s p. p\<lparr>p_content := s\<rparr>) (as_text v)
      else None)"

text \<open>\<open>update posts set ... where id=${postId} returning *\<close>\<close>

definition update_posts :: "db \<Rightarrow> nat \<Rightarrow> fields \<Rightarrow> (error + post_row list) \<times> db" where
  "update_posts d postId fs =
     (case set_clause post_column fs of
        None \<Rightarrow> (Inl StoreFailure, d)
      | Some f \<Rightarrow>
          (let ps = map (\<lambda>p. if p_id p = postId then f p else p) (posts d)
           in if distinct (map p_id ps) \<and>
                 list_all (\<lambda>p. p_authorId p \<in> set (map u_id (users d))) ps \<and>
                 list_all (\<lambda>r. fst r \<in> set (map p_id ps)) (post_tags d)
              then (Inr (map f (filter (\<lambda>p. p_id p = postId) (posts d))), d\<lparr>posts := ps\<rparr>)
              else (Inl StoreFailure, d)))"

text \<open>
  \<open>delete from post_tags where "tagId" not in (${tagListIdString}) and "postId"=$1\<close>; with
  no id to put between the parentheses the statement is not well formed.
\<close>

definition delete_post_tags :: "db \<Rightarrow> nat list \<Rightarrow> nat \<Rightarrow> (error + unit) \<times> db" where
  "delete_post_tags d ids postId =
     (if ids = [] then (Inl StoreFailure, d)
      else (Inr (), d\<lparr>post_tags :=
              filter (\<lambda>r. \<not> (snd r \<notin> set ids \<and> fst r = postId)) (post_tags d)\<rparr>))"

text \<open>
  updatePost returns its result, the store, and the \<open>fields\<close> object of the caller as the
  call leaves it. A \<open>tags\<close> value that is not an array has no \<open>map\<close>: createTags throws a
  TypeError before it reaches the store (an empty string has length 0, and the
  \<open>undefined\<close> that comes back has no \<open>map\<close> either).
\<close>

definition updatePost :: "db \<Rightarrow> nat \<Rightarrow> fields \<Rightarrow> (error + jsval) \<times> db \<times> fields" where
  "updatePost d postId fs =
     (let tagsArg = map_of fs ''tags'';
          fs' = delete_prop ''tags'' fs
      in case (if length (setString fs') > 0 then update_posts d postId fs' else (Inr [], d)) of
           (Inl err, d1) \<Rightarrow> (Inl err, d1, fs')
         | (Inr rows, d1) \<Rightarrow>
             (case tagsArg of
                None \<Rightarrow> (getPostById d1 postId, d1, fs')
              | Some v \<Rightarrow>
                  (case (case v of VList ns \<Rightarrow> createTags d1 ns
                                 | VInt n \<Rightarrow> (Inl TypeError, d1)
                                 | VText s \<Rightarrow> (Inl TypeError, d1)) of
                     (Inl err, d2) \<Rightarrow> (Inl err, d2, fs')
                   | (Inr None, d2) \<Rightarrow> (Inl TypeError, d2, fs')
                   | (Inr (Some tagList), d2) \<Rightarrow>
                       (case delete_post_tags d2 (map t_id tagList) postId of
                          (Inl err, d3) \<Rightarrow> (Inl err, d3, fs')
                        | (Inr u, d3) \<Rightarrow>
                            (case addTagsToPost d3 postId (Some tagList) of
                               (Inl err, d4) \<Rightarrow> (Inl err, d4, fs')
                             | (Inr p, d4) \<Rightarrow> (getPostById d4 postId, d4, fs'))))))"

subsection \<open>A small store\<close>

text \<open>
  One user, one post of hers labelled \<open>#a\<close> and \<open>#b\<close>, as in the reconciliation
  scenario of the specification.
\<close>

definition alice :: user_row where
  "alice = \<lparr>u_id = 1, u_username = ''alice'', u_password = ''pw'',
             u_name = ''Alice'', u_location = ''NY''\<rparr>"

definition hello :: post_row where
  "hello = \<lparr>p_id = 1, p_authorId = 1, p_title = ''Hello'', p_content = ''World''\<rparr>"

definition example_store :: db where
  "example_store =
     \<lparr>users = [alice], users_seq = 1,
      posts = [hello], posts_seq = 1,
      tags = [\<lparr>t_id = 1, t_name = ''#a''\<rparr>, \<lparr>t_id = 2, t_name = ''#b''\<rparr>], tags_seq = 2,
      post_tags = [(1, 1), (1, 2)]\<rparr>"

definition bob :: user_input where
  "bob = \<lparr>username = ''bob'', password = ''b0b'', name = ''Bob'', location = ''LA''\<rparr>"

definition empty_store :: db where
  "empty_store =
     \<lparr>users = [], users_seq = 0, posts = [], posts_seq = 0,
      tags = [], tags_seq = 0, post_tags = []\<rparr>"

subsection \<open>The shape of a post aggregate\<close>

text \<open>\<open>v.k\<close>: the value under a key, \<open>undefined\<close> when the value is no object or lacks the key.\<close>

definition prop_of :: "string \<Rightarrow> jsval \<Rightarrow> jsval" where
  "prop_of k v =
     (case v of
        JObj ob \<Rightarrow> (case map_of ob k of None \<Rightarrow> JUndefined | Some x \<Rightarrow> x)
      | _ \<Rightarrow> JUndefined)"

text \<open>
  An object with an \<open>author\<close> key and a \<open>tags\<close> key that holds an array, in which neither
  a \<open>password\<close> key nor an \<open>authorId\<close> key occurs at any depth.
\<close>

definition is_aggregate :: "jsval \<Rightarrow> bool" where
  "is_aggregate v =
     (case v of
        JObj ob \<Rightarrow>
          ''author'' \<in> set (obj_keys ob) \<and>
          (case map_of ob ''tags'' of Some (JArr ts) \<Rightarrow> True | _ \<Rightarrow> False) \<and>
          \<not> exposes_obj ''password'' ob \<and> \<not> exposes_obj ''authorId'' ob
      | _ \<Rightarrow> False)"

definition all_aggregates :: "jsval \<Rightarrow> bool" where
  "all_aggregates v = (case v of JArr vs \<Rightarrow> list_all is_aggregate vs | _ \<Rightarrow> False)"

text \<open>The object that getPostById builds from a post row, written out key by key.\<close>

definition assembled :: "db \<Rightarrow> post_row \<Rightarrow> jsval" where
  "assembled d post =
     JObj [(''id'', JNum (p_id post)), (''title'', JStr (p_title post)),
           (''content'', JStr (p_content post)),
           (''tags'', JArr (map (\<lambda>t. JObj (tag_star t)) (select_tags_of_post d (p_id post)))),
           (''author'', first_row (map user_summary
                          (filter (\<lambda>u. u_id u = p_authorId post) (users d))))]"

text \<open>
  The entries of a field mapping other than those under the key \<open>tags\<close>, in their order:
  what the caller's object must be once the key is gone, stated without \<open>delete_prop\<close>.
\<close>

definition without_tags :: "fields \<Rightarrow> fields" where
  "without_tags fs = filter (\<lambda>kv. fst kv \<noteq> ''tags'') fs"

text \<open>The constraints on the tags table, for a table and a sequence value on their own.\<close>

definition tags_ok :: "tag_row list \<Rightarrow> nat \<Rightarrow> bool" where
  "tags_ok ts sq \<longleftrightarrow>
     distinct (map t_id ts) \<and> distinct (map t_name ts) \<and> (\<forall>t\<in>set ts. t_id t \<le> sq)"

section \<open>Properties\<close>

subsection \<open>The small store satisfies the schema\<close>

lemma example_store_wf: "wf_db example_store"
  by (simp add: wf_db_def wf_users_def wf_posts_def wf_tags_def wf_post_tags_def
      example_store_def alice_def hello_def)

subsection \<open>The post aggregate read\<close>

lemma getPostById_found:
  "list_ex (\<lambda>p. p_id p = postId) (posts d) \<Longrightarrow> \<exists>ob. getPostById d postId = Inr (JObj ob)"
  by (auto simp: getPostById_def list_ex_iff filter_empty_conv split: list.splits)

lemma getPostById_missing:
  "\<not> list_ex (\<lambda>p. p_id p = postId) (posts d) \<Longrightarrow> getPostById d postId = Inl PostNotFoundError"
  by (auto simp: getPostById_def list_ex_iff filter_empty_conv split: list.splits)

subsection \<open>Reads never miss a post they selected\<close>

lemma promise_all_Inl:
  "promise_all rs = Inl err \<Longrightarrow> Inl err \<in> set rs"
  by (induction rs rule: promise_all.induct) (auto split: sum.splits)

lemma promise_all_Inr:
  "promise_all rs = Inr xs \<Longrightarrow> rs = map Inr xs"
  by (induction rs arbitrary: xs rule: promise_all.induct) (auto split: sum.splits)

lemma getPostById_Inl:
  "getPostById d postId = Inl err \<Longrightarrow> err = PostNotFoundError \<and> \<not> list_ex (\<lambda>p. p_id p = postId) (posts d)"
  by (auto simp: getPostById_def Let_def list_ex_iff filter_empty_conv split: list.splits)

lemma getPostById_existing:
  "p \<in> set (posts d) \<Longrightarrow> getPostById d (p_id p) \<noteq> Inl err"
  using getPostById_Inl [of d "p_id p" err] by (auto simp: list_ex_iff)

lemma getAllPosts_total: "getAllPosts d \<noteq> Inl err"
proof
  assume "getAllPosts d = Inl err"
  then have "promise_all (map (\<lambda>p. getPostById d (p_id p)) (posts d)) = Inl err"
    by (cases "promise_all (map (\<lambda>p. getPostById d (p_id p)) (posts d))") (auto simp: getAllPosts_def)
  from promise_all_Inl [OF this] obtain p where "p \<in> set (posts d)" "getPostById d (p_id p) = Inl err"
    by force
  then show False
    using getPostById_existing by blast
qed

lemma getPostsByUser_total: "getPostsByUser d userId \<noteq> Inl err"
proof
  let ?rs = "map (\<lambda>p. getPostById d (p_id p)) (filter (\<lambda>p. p_authorId p = userId) (posts d))"
  assume "getPostsByUser d userId = Inl err"
  then have "promise_all ?rs = Inl err"
    by (cases "promise_all ?rs") (auto simp: getPostsByUser_def)
  from promise_all_Inl [OF this] obtain p where "p \<in> set (posts d)" "getPostById d (p_id p) = Inl err"
    by force
  then show False
    using getPostById_existing by blast
qed

lemma select_post_ids_by_tag_existing:
  "i \<in> set (select_post_ids_by_tag d tagName) \<Longrightarrow> \<exists>p\<in>set (posts d). p_id p = i"
  by (auto simp: select_post_ids_by_tag_def)

lemma getPostsByTagName_total: "getPostsByTagName d tagName \<noteq> Inl err"
proof
  let ?rs = "map (getPostById d) (select_post_ids_by_tag d tagName)"
  assume "getPostsByTagName d tagName = Inl err"
  then have "promise_all ?rs = Inl err"
    by (cases "promise_all ?rs") (auto simp: getPostsByTagName_def)
  from promise_all_Inl [OF this] obtain i where "i \<in> set (select_post_ids_by_tag d tagName)" "getPostById d i = Inl err"
    by auto
  then show False
    using getPostById_existing select_post_ids_by_tag_existing by metis
qed

lemma getUserById_total: "getUserById d userId \<noteq> Inl err"
  by (auto simp: getUserById_def getPostsByUser_total split: list.splits sum.splits)

lemma getUserById_missing:
  "\<not> list_ex (\<lambda>u. u_id u = userId) (users d) \<Longrightarrow> getUserById d userId = Inr JUndefined"
  by (auto simp: getUserById_def list_ex_iff filter_empty_conv split: list.splits)

lemma createUser_not_NotFound: "fst (createUser d a) \<noteq> Inl PostNotFoundError"
  by (auto simp: createUser_def insert_user_def Let_def split: prod.splits sum.splits if_splits)

lemma updateUser_not_NotFound: "fst (updateUser d userId fs) \<noteq> Inl PostNotFoundError"
  by (auto simp: updateUser_def update_users_def Let_def split: prod.splits sum.splits if_splits option.splits)

lemma insert_tag_rows_err:
  "insert_tag_rows ts sq ns = (Some err, ts', sq') \<Longrightarrow> err = StoreFailure"
  by (induction ts sq ns rule: insert_tag_rows.induct) (auto split: if_splits)

lemma createTags_not_NotFound: "fst (createTags d ns) \<noteq> Inl PostNotFoundError"
  by (auto simp: createTags_def insert_tags_def split: prod.splits sum.splits option.splits dest: insert_tag_rows_err)

lemma createPostTag_not_NotFound: "fst (createPostTag d postId tagId) \<noteq> Inl PostNotFoundError"
  by (auto simp: createPostTag_def)

subsection \<open>The tag upsert\<close>

lemma insert_tag_rows_ok:
  "tags_ok ts sq \<Longrightarrow>
   \<exists>new sq'. insert_tag_rows ts sq ns = (None, ts @ new, sq') \<and> tags_ok (ts @ new) sq' \<and>
      t_name ` set (ts @ new) = t_name ` set ts \<union> set ns"
proof (induction ts sq ns rule: insert_tag_rows.induct)
  case (1 ts sq)
  then show ?case by simp
next
  case (2 ts sq n ns)
  show ?case
  proof (cases "list_ex (\<lambda>t. t_name t = n) ts")
    case True
    from 2(3) have ok: "tags_ok ts (sq + 1)"
      by (auto simp: tags_ok_def)
    from "2.IH"(1) [OF True ok] obtain new sq' where
      r: "insert_tag_rows ts (sq + 1) ns = (None, ts @ new, sq')" "tags_ok (ts @ new) sq'"
        "t_name ` set (ts @ new) = t_name ` set ts \<union> set ns"
      by blast
    from True have "n \<in> t_name ` set ts"
      by (auto simp: list_ex_iff)
    with r True show ?thesis
      by (intro exI [of _ new] exI [of _ sq']) auto
  next
    case False
    from 2(3) have fresh: "\<not> list_ex (\<lambda>t. t_id t = sq + 1) ts"
      by (auto simp: tags_ok_def list_ex_iff)
    let ?ts = "ts @ [\<lparr>t_id = sq + 1, t_name = n\<rparr>]"
    from 2(3) False have ok: "tags_ok ?ts (sq + 1)"
      by (auto simp: tags_ok_def list_ex_iff)
    from "2.IH"(2) [OF False fresh ok] obtain new sq' where
      r: "insert_tag_rows ?ts (sq + 1) ns = (None, ?ts @ new, sq')" "tags_ok (?ts @ new) sq'"
        "t_name ` set (?ts @ new) = t_name ` set ?ts \<union> set ns"
      by blast
    with False fresh show ?thesis
      by (intro exI [of _ "\<lparr>t_id = sq + 1, t_name = n\<rparr> # new"] exI [of _ sq']) auto
  qed
qed

lemma wf_tags_iff: "wf_tags d \<longleftrightarrow> tags_ok (tags d) (tags_seq d)"
  by (simp add: wf_tags_def tags_ok_def list_all_iff)

lemma unique_row:
  "distinct (map f xs) \<Longrightarrow> k \<in> f ` set xs \<Longrightarrow> length (filter (\<lambda>y. f y = k) xs) = 1"
proof (induction xs)
  case Nil
  then show ?case by simp
next
  case (Cons x xs)
  show ?case
  proof (cases "f x = k")
    case True
    with Cons.prems have "k \<notin> f ` set xs"
      by simp
    then have "filter (\<lambda>y. f y = k) xs = []"
      by (auto simp: filter_empty_conv)
    with True show ?thesis by simp
  next
    case False
    with Cons show ?thesis by auto
  qed
qed

lemma createTags_ok:
  assumes "wf_tags d" and "ns \<noteq> []"
  shows "\<exists>new sq'. createTags d ns =
            (Inr (Some (filter (\<lambda>t. t_name t \<in> set ns) (tags d @ new))),
             d\<lparr>tags := tags d @ new, tags_seq := sq'\<rparr>) \<and>
          tags_ok (tags d @ new) sq' \<and>
          t_name ` set (tags d @ new) = t_name ` set (tags d) \<union> set ns"
proof -
  from assms(1) have "tags_ok (tags d) (tags_seq d)"
    by (simp add: wf_tags_iff)
  from insert_tag_rows_ok [OF this, of ns] obtain new sq' where
    r: "insert_tag_rows (tags d) (tags_seq d) ns = (None, tags d @ new, sq')"
       "tags_ok (tags d @ new) sq'"
       "t_name ` set (tags d @ new) = t_name ` set (tags d) \<union> set ns"
    by blast
  from r(1) assms(2) have "createTags d ns =
      (Inr (Some (filter (\<lambda>t. t_name t \<in> set ns) (tags d @ new))),
       d\<lparr>tags := tags d @ new, tags_seq := sq'\<rparr>)"
    by (simp add: createTags_def insert_tags_def select_tags_in_def)
  with r(2,3) show ?thesis by blast
qed

lemma createTags_result:
  assumes "wf_tags d" and "ns \<noteq> []"
  shows "\<exists>rows d'. createTags d ns = (Inr (Some rows), d') \<and> wf_tags d' \<and>
           rows = select_tags_in d' ns \<and>
           (\<forall>n\<in>set ns. length (filter (\<lambda>t. t_name t = n) (tags d')) = 1) \<and>
           (\<forall>n\<in>set ns. length (filter (\<lambda>t. t_name t = n) rows) = 1) \<and>
           t_name ` set rows = set ns \<and>
           (\<exists>new. tags d' = tags d @ new) \<and>
           users d' = users d \<and> users_seq d' = users_seq d \<and> posts d' = posts d \<and>
           posts_seq d' = posts_seq d \<and> post_tags d' = post_tags d"
proof -
  from createTags_ok [OF assms] obtain new sq' where
    r: "createTags d ns =
          (Inr (Some (filter (\<lambda>t. t_name t \<in> set ns) (tags d @ new))),
           d\<lparr>tags := tags d @ new, tags_seq := sq'\<rparr>)"
       "tags_ok (tags d @ new) sq'"
       "t_name ` set (tags d @ new) = t_name ` set (tags d) \<union> set ns"
    by blast
  let ?d = "d\<lparr>tags := tags d @ new, tags_seq := sq'\<rparr>"
  let ?rows = "filter (\<lambda>t. t_name t \<in> set ns) (tags d @ new)"
  from r(2) have wf: "wf_tags ?d"
    by (simp add: wf_tags_iff)
  from r(2) have dn: "distinct (map t_name (tags d @ new))"
    by (simp add: tags_ok_def)
  have one: "\<forall>n\<in>set ns. length (filter (\<lambda>t. t_name t = n) (tags d @ new)) = 1"
    using unique_row [OF dn] r(3) by blast
  have names: "t_name ` set ?rows = set ns"
    using r(3) by auto
  have dr: "distinct (map t_name ?rows)"
    using dn by (rule distinct_map_filter)
  have one': "\<forall>n\<in>set ns. length (filter (\<lambda>t. t_name t = n) ?rows) = 1"
    using unique_row [OF dr] names by blast
  show ?thesis
    apply (rule exI [of _ ?rows])
    apply (rule exI [of _ ?d])
    using r(1) wf one one' names by (simp add: select_tags_in_def)
qed

text \<open>
  Claim C3. createTags with no name returns \<open>undefined\<close> and leaves the store as it is.
  With names, on a tags table that satisfies its constraints, it returns exactly the
  rows of the table that carry a requested name, one row for each requested name,
  rows that were there before included; afterwards every requested name has exactly
  one row. A second call with other names, overlapping or not, leaves exactly one row
  for each name of either call.
\<close>

theorem createTags_upsert_get:
  "createTags d [] = (Inr None, d) \<and>
   (wf_tags d \<and> ns \<noteq> [] \<and> ms \<noteq> [] \<longrightarrow>
      (\<exists>rows d1 rows2 d2.
         createTags d ns = (Inr (Some rows), d1) \<and>
         (\<forall>n\<in>set ns. length (filter (\<lambda>t. t_name t = n) (tags d1)) = 1) \<and>
         (\<forall>n\<in>set ns. length (filter (\<lambda>t. t_name t = n) rows) = 1) \<and>
         set rows = {t \<in> set (tags d1). t_name t \<in> set ns} \<and>
         set (tags d) \<subseteq> set (tags d1) \<and>
         createTags d1 ms = (Inr (Some rows2), d2) \<and>
         (\<forall>n\<in>set ns \<union> set ms. length (filter (\<lambda>t. t_name t = n) (tags d2)) = 1) \<and>
         set rows2 = {t \<in> set (tags d2). t_name t \<in> set ms}))"
proof -
  have empty: "createTags d [] = (Inr None, d)"
    by (simp add: createTags_def)
  have twice: "\<exists>rows d1 rows2 d2.
         createTags d ns = (Inr (Some rows), d1) \<and>
         (\<forall>n\<in>set ns. length (filter (\<lambda>t. t_name t = n) (tags d1)) = 1) \<and>
         (\<forall>n\<in>set ns. length (filter (\<lambda>t. t_name t = n) rows) = 1) \<and>
         set rows = {t \<in> set (tags d1). t_name t \<in> set ns} \<and>
         set (tags d) \<subseteq> set (tags d1) \<and>
         createTags d1 ms = (Inr (Some rows2), d2) \<and>
         (\<forall>n\<in>set ns \<union> set ms. length (filter (\<lambda>t. t_name t = n) (tags d2)) = 1) \<and>
         set rows2 = {t \<in> set (tags d2). t_name t \<in> set ms}"
    if wf: "wf_tags d" and ns: "ns \<noteq> []" and ms: "ms \<noteq> []"
  proof -
    from createTags_result [OF wf ns] obtain rows d1 where
      c1: "createTags d ns = (Inr (Some rows), d1)" and wf1: "wf_tags d1"
      and rows: "rows = select_tags_in d1 ns"
      and one1: "\<forall>n\<in>set ns. length (filter (\<lambda>t. t_name t = n) (tags d1)) = 1"
      and one1': "\<forall>n\<in>set ns. length (filter (\<lambda>t. t_name t = n) rows) = 1"
      and names1: "t_name ` set rows = set ns"
      and grow1: "\<exists>new. tags d1 = tags d @ new"
      by blast
    from createTags_result [OF wf1 ms] obtain rows2 d2 where
      c2: "createTags d1 ms = (Inr (Some rows2), d2)" and wf2: "wf_tags d2"
      and rows2: "rows2 = select_tags_in d2 ms"
      and one2: "\<forall>n\<in>set ms. length (filter (\<lambda>t. t_name t = n) (tags d2)) = 1"
      and grow2: "\<exists>new. tags d2 = tags d1 @ new"
      by blast
    from rows have set1: "set rows = {t \<in> set (tags d1). t_name t \<in> set ns}"
      by (auto simp: select_tags_in_def)
    from rows2 have set2: "set rows2 = {t \<in> set (tags d2). t_name t \<in> set ms}"
      by (auto simp: select_tags_in_def)
    from grow1 have sub1: "set (tags d) \<subseteq> set (tags d1)"
      by auto
    from grow2 have sub2: "set (tags d1) \<subseteq> set (tags d2)"
      by auto
    from wf2 have dn: "distinct (map t_name (tags d2))"
      by (simp add: wf_tags_def)
    from names1 set1 sub2 have "set ns \<subseteq> t_name ` set (tags d2)"
      by blast
    with unique_row [OF dn] have "\<forall>n\<in>set ns. length (filter (\<lambda>t. t_name t = n) (tags d2)) = 1"
      by blast
    with one2 have both: "\<forall>n\<in>set ns \<union> set ms. length (filter (\<lambda>t. t_name t = n) (tags d2)) = 1"
      by blast
    from c1 one1 one1' set1 sub1 c2 both set2 show ?thesis
      by blast
  qed
  from empty twice show ?thesis
    by blast
qed

theorem createTags_upsert_get_witness:
  "wf_tags example_store \<and> [''#b'', ''#c''] \<noteq> [] \<and> [''#c'', ''#d'', ''#c''] \<noteq> [] \<and>
   (\<exists>rows d1 rows2 d2.
      createTags example_store [''#b'', ''#c''] = (Inr (Some rows), d1) \<and>
      set rows = {t \<in> set (tags d1). t_name t \<in> set [''#b'', ''#c'']} \<and>
      createTags d1 [''#c'', ''#d'', ''#c''] = (Inr (Some rows2), d2) \<and>
      (\<forall>n\<in>set [''#b'', ''#c''] \<union> set [''#c'', ''#d'', ''#c''].
          length (filter (\<lambda>t. t_name t = n) (tags d2)) = 1))"
proof -
  have wf: "wf_tags example_store"
    using example_store_wf by (simp add: wf_db_def)
  moreover have "[''#b'', ''#c''] \<noteq> []" "[''#c'', ''#d'', ''#c''] \<noteq> []"
    by simp_all
  ultimately show ?thesis
    using createTags_upsert_get [of example_store "[''#b'', ''#c'']" "[''#c'', ''#d'', ''#c'']"]
    by blast
qed

subsection \<open>What the statements touch, and the errors they raise\<close>

lemma createPostTag_frame:
  "createPostTag d postId tagId = (r, d') \<Longrightarrow>
   users d' = users d \<and> users_seq d' = users_seq d \<and> posts d' = posts d \<and>
   posts_seq d' = posts_seq d \<and> tags d' = tags d \<and> tags_seq d' = tags_seq d"
  by (auto simp: createPostTag_def split: if_splits)

lemma createPostTag_err:
  "createPostTag d postId tagId = (Inl err, d') \<Longrightarrow> err = StoreFailure"
  by (auto simp: createPostTag_def split: if_splits)

lemma createPostTagPromises_frame:
  "createPostTagPromises d postId tgs = (e, d') \<Longrightarrow>
   users d' = users d \<and> users_seq d' = users_seq d \<and> posts d' = posts d \<and>
   posts_seq d' = posts_seq d \<and> tags d' = tags d \<and> tags_seq d' = tags_seq d"
proof (induction tgs arbitrary: d e d')
  case Nil
  then show ?case by simp
next
  case (Cons tag rest)
  obtain r d1 where s1: "createPostTag d postId (t_id tag) = (r, d1)"
    by (cases "createPostTag d postId (t_id tag)")
  obtain e2 d2 where s2: "createPostTagPromises d1 postId rest = (e2, d2)"
    by (cases "createPostTagPromises d1 postId rest")
  from Cons.prems s1 s2 have "d' = d2"
    by simp
  with Cons.IH [OF s2] createPostTag_frame [OF s1] show ?case
    by simp
qed

lemma createPostTagPromises_err:
  "createPostTagPromises d postId tgs = (Some err, d') \<Longrightarrow> err = StoreFailure"
proof (induction tgs arbitrary: d d')
  case Nil
  then show ?case by simp
next
  case (Cons tag rest)
  obtain r d1 where s1: "createPostTag d postId (t_id tag) = (r, d1)"
    by (cases "createPostTag d postId (t_id tag)")
  obtain e2 d2 where s2: "createPostTagPromises d1 postId rest = (e2, d2)"
    by (cases "createPostTagPromises d1 postId rest")
  show ?case
  proof (cases r)
    case (Inl x)
    with Cons.prems s1 s2 createPostTag_err [of d postId "t_id tag" x d1] show ?thesis
      by simp
  next
    case (Inr u)
    with Cons.prems s1 s2 have "e2 = Some err"
      by simp
    with s2 Cons.IH show ?thesis
      by blast
  qed
qed

lemma getPostById_posts_cong:
  "posts d' = posts d \<Longrightarrow> getPostById d' postId = Inl err \<longleftrightarrow> getPostById d postId = Inl err"
  by (auto simp: getPostById_def Let_def split: list.splits)

lemma addTagsToPost_NotFound:
  "addTagsToPost d postId tagList = (Inl PostNotFoundError, d') \<Longrightarrow>
   getPostById d' postId = Inl PostNotFoundError"
  by (auto simp: addTagsToPost_def split: option.splits prod.splits dest: createPostTagPromises_err)

lemma addTagsToPost_frame:
  "addTagsToPost d postId tagList = (r, d') \<Longrightarrow> posts d' = posts d"
  by (auto simp: addTagsToPost_def split: option.splits prod.splits dest: createPostTagPromises_frame)

lemma insert_tag_rows_shape:
  "insert_tag_rows ts sq ns = (e, ts', sq') \<Longrightarrow> \<exists>new. ts' = ts @ new"
  by (induction ts sq ns rule: insert_tag_rows.induct) (auto split: if_splits)

lemma createTags_frame:
  "createTags d ns = (r, d') \<Longrightarrow>
   users d' = users d \<and> users_seq d' = users_seq d \<and> posts d' = posts d \<and>
   posts_seq d' = posts_seq d \<and> post_tags d' = post_tags d"
  by (auto simp: createTags_def insert_tags_def split: if_splits prod.splits option.splits)

lemma createTags_err:
  "createTags d ns = (Inl err, d') \<Longrightarrow> err = StoreFailure"
  by (auto simp: createTags_def insert_tags_def split: if_splits prod.splits option.splits
      dest: insert_tag_rows_err)

lemma insert_post_Inr:
  "insert_post d authorId title content = (Inr post, d1) \<Longrightarrow>
   post = \<lparr>p_id = posts_seq d + 1, p_authorId = authorId, p_title = title, p_content = content\<rparr> \<and>
   posts d1 = posts d @ [post] \<and> users d1 = users d \<and> tags d1 = tags d \<and>
   post_tags d1 = post_tags d"
  by (auto simp: insert_post_def Let_def split: if_splits)

lemma insert_post_err:
  "insert_post d authorId title content = (Inl err, d1) \<Longrightarrow> err = StoreFailure"
  by (auto simp: insert_post_def Let_def split: if_splits)

lemma insert_post_ok:
  assumes "wf_posts d" and "authorId \<in> set (map u_id (users d))"
  shows "\<exists>d1. insert_post d authorId title content =
           (Inr \<lparr>p_id = posts_seq d + 1, p_authorId = authorId, p_title = title, p_content = content\<rparr>, d1)"
proof -
  from assms(1) have "\<not> list_ex (\<lambda>p. p_id p = posts_seq d + 1) (posts d)"
    by (auto simp: wf_posts_def list_ex_iff list_all_iff)
  with assms(2) show ?thesis
    by (simp add: insert_post_def Let_def)
qed

lemma createPost_not_NotFound:
  "fst (createPost d authorId title content tagsArg) \<noteq> Inl PostNotFoundError"
proof
  assume nf: "fst (createPost d authorId title content tagsArg) = Inl PostNotFoundError"
  let ?ns = "case tagsArg of None \<Rightarrow> [] | Some ns \<Rightarrow> ns"
  obtain r1 d1 where i: "insert_post d authorId title content = (r1, d1)"
    by (cases "insert_post d authorId title content")
  show False
  proof (cases r1)
    case (Inl err)
    with i nf insert_post_err [of d authorId title content err d1] show False
      by (simp add: createPost_def)
  next
    case (Inr post)
    with i insert_post_Inr have in1: "post \<in> set (posts d1)"
      by fastforce
    obtain r2 d2 where c: "createTags d1 ?ns = (r2, d2)"
      by (cases "createTags d1 ?ns")
    show False
    proof (cases r2)
      case (Inl err)
      with i Inr c nf createTags_err [of d1 ?ns err d2] show False
        by (simp add: createPost_def)
    next
      case inr2: (Inr tagList)
      obtain r3 d3 where a: "addTagsToPost d2 (p_id post) tagList = (r3, d3)"
        by (cases "addTagsToPost d2 (p_id post) tagList")
      with i Inr c inr2 nf have "r3 = Inl PostNotFoundError"
        by (simp add: createPost_def)
      with a addTagsToPost_NotFound have "getPostById d3 (p_id post) = Inl PostNotFoundError"
        by blast
      moreover from createTags_frame [OF c] addTagsToPost_frame [OF a] in1
      have "post \<in> set (posts d3)"
        by simp
      ultimately show False
        using getPostById_existing by blast
    qed
  qed
qed

lemma update_posts_err:
  "update_posts d postId fs = (Inl err, d') \<Longrightarrow> err = StoreFailure"
  by (auto simp: update_posts_def Let_def split: option.splits if_splits)

lemma delete_post_tags_err:
  "delete_post_tags d ids postId = (Inl err, d') \<Longrightarrow> err = StoreFailure"
  by (auto simp: delete_post_tags_def split: if_splits)

lemma updatePost_NotFound:
  "updatePost d postId fs = (Inl PostNotFoundError, d', fs') \<Longrightarrow>
   getPostById d' postId = Inl PostNotFoundError"
  unfolding updatePost_def Let_def
  by (auto split: prod.splits sum.splits option.splits fval.splits if_splits
      dest: update_posts_err createTags_err delete_post_tags_err addTagsToPost_NotFound)

subsection \<open>Absent users and absent posts\<close>

text \<open>
  Claim C5. getUserById with an id that no user row carries returns \<open>undefined\<close>;
  getPostById with an id that no post row carries fails with PostNotFoundError, and
  fails with it only then. No other operation raises that error of its own: the
  operations that never read a post by a caller's id never return it, createPost never
  returns it, and when addTagsToPost or updatePost return it, it is the one that
  getPostById raises for the post id on the store they leave.
\<close>

theorem absence_handling:
  "(\<not> list_ex (\<lambda>u. u_id u = userId) (users d) \<longrightarrow> getUserById d userId = Inr JUndefined) \<and>
   (\<not> list_ex (\<lambda>p. p_id p = postId) (posts d) \<longrightarrow> getPostById d postId = Inl PostNotFoundError) \<and>
   (getPostById d postId = Inl PostNotFoundError \<longrightarrow> \<not> list_ex (\<lambda>p. p_id p = postId) (posts d)) \<and>
   getAllUsers d \<noteq> Inl PostNotFoundError \<and>
   fst (createUser d a) \<noteq> Inl PostNotFoundError \<and>
   fst (updateUser d userId fs) \<noteq> Inl PostNotFoundError \<and>
   getUserById d userId \<noteq> Inl PostNotFoundError \<and>
   getUserByUsername d un \<noteq> Inl PostNotFoundError \<and>
   getAllPosts d \<noteq> Inl PostNotFoundError \<and>
   getPostsByUser d userId \<noteq> Inl PostNotFoundError \<and>
   getPostsByTagName d tagName \<noteq> Inl PostNotFoundError \<and>
   fst (createTags d ns) \<noteq> Inl PostNotFoundError \<and>
   fst (createPostTag d postId tagId) \<noteq> Inl PostNotFoundError \<and>
   fst (createPost d authorId title content tagsArg) \<noteq> Inl PostNotFoundError \<and>
   (addTagsToPost d postId tagList = (Inl PostNotFoundError, d') \<longrightarrow>
      getPostById d' postId = Inl PostNotFoundError) \<and>
   (updatePost d postId fs = (Inl PostNotFoundError, d', fs') \<longrightarrow>
      getPostById d' postId = Inl PostNotFoundError)"
proof -
  have 1: "\<not> list_ex (\<lambda>u. u_id u = userId) (users d) \<longrightarrow> getUserById d userId = Inr JUndefined"
    by (simp add: getUserById_missing)
  have 2: "\<not> list_ex (\<lambda>p. p_id p = postId) (posts d) \<longrightarrow> getPostById d postId = Inl PostNotFoundError"
    by (simp add: getPostById_missing)
  have 3: "getPostById d postId = Inl PostNotFoundError \<longrightarrow> \<not> list_ex (\<lambda>p. p_id p = postId) (posts d)"
    using getPostById_Inl by blast
  have 4: "getAllUsers d \<noteq> Inl PostNotFoundError"
    by (simp add: getAllUsers_def)
  have 5: "getUserByUsername d un \<noteq> Inl PostNotFoundError"
    by (simp add: getUserByUsername_def)
  have 6: "addTagsToPost d postId tagList = (Inl PostNotFoundError, d') \<longrightarrow>
      getPostById d' postId = Inl PostNotFoundError"
    using addTagsToPost_NotFound by blast
  have 7: "updatePost d postId fs = (Inl PostNotFoundError, d', fs') \<longrightarrow>
      getPostById d' postId = Inl PostNotFoundError"
    using updatePost_NotFound by blast
  show ?thesis
    by (intro conjI 1 2 3 4 5 6 7 createUser_not_NotFound updateUser_not_NotFound
        getUserById_total getAllPosts_total getPostsByUser_total getPostsByTagName_total
        createTags_not_NotFound createPostTag_not_NotFound createPost_not_NotFound)
qed

theorem absence_handling_witness:
  "\<not> list_ex (\<lambda>u. u_id u = 7) (users example_store) \<and>
   getUserById example_store 7 = Inr JUndefined \<and>
   \<not> list_ex (\<lambda>p. p_id p = 7) (posts example_store) \<and>
   getPostById example_store 7 = Inl PostNotFoundError \<and>
   addTagsToPost example_store 7 (Some []) = (Inl PostNotFoundError, example_store) \<and>
   updatePost example_store 7 [] = (Inl PostNotFoundError, example_store, [])"
proof -
  have nu: "\<not> list_ex (\<lambda>u. u_id u = 7) (users example_store)"
    by (simp add: example_store_def alice_def)
  have np: "\<not> list_ex (\<lambda>p. p_id p = 7) (posts example_store)"
    by (simp add: example_store_def hello_def)
  note t = absence_handling [where userId = 7 and d = example_store and postId = 7 and tagList = "Some []"
      and d' = example_store and fs = "[]" and fs' = "[]"]
  from nu t have gu: "getUserById example_store 7 = Inr JUndefined"
    by blast
  from np t have gp: "getPostById example_store 7 = Inl PostNotFoundError"
    by blast
  from gp have a: "addTagsToPost example_store 7 (Some []) = (Inl PostNotFoundError, example_store)"
    by (simp add: addTagsToPost_def)
  from gp have u: "updatePost example_store 7 [] = (Inl PostNotFoundError, example_store, [])"
    by (simp add: updatePost_def setString_def delete_prop_def)
  from nu gu np gp a u show ?thesis
    by blast
qed

subsection \<open>What a post aggregate shows\<close>

lemma Inr_of_not_isl: "\<not> isl r \<Longrightarrow> \<exists>v. r = Inr v"
  by (cases r) auto

lemma Inr_of_not_isl_fst: "\<not> isl (fst p) \<Longrightarrow> \<exists>v s. p = (Inr v, s)"
  by (cases p; cases "fst p") auto

lemma getPostById_shape:
  "getPostById d postId = Inr v \<Longrightarrow>
   \<exists>post. post \<in> set (posts d) \<and> p_id post = postId \<and> v = assembled d post"
proof -
  assume r: "getPostById d postId = Inr v"
  then obtain post rest where f: "filter (\<lambda>p. p_id p = postId) (posts d) = post # rest"
    by (cases "filter (\<lambda>p. p_id p = postId) (posts d)") (auto simp: getPostById_def)
  then have "post \<in> set (filter (\<lambda>p. p_id p = postId) (posts d))"
    by simp
  then have m: "post \<in> set (posts d)" "p_id post = postId"
    by simp_all
  from r f m(2) have "v = assembled d post"
    by (simp add: getPostById_def Let_def post_star_def delete_prop_def assembled_def)
  with m show ?thesis
    by blast
qed

lemma tag_objects_expose:
  "k \<noteq> ''id'' \<Longrightarrow> k \<noteq> ''name'' \<Longrightarrow> \<not> exposes_list k (map (\<lambda>t. JObj (tag_star t)) ts)"
  by (induction ts) (simp_all add: tag_star_def)

lemma user_summary_exposes:
  "exposes k (first_row (map user_summary us)) \<Longrightarrow>
   k = ''id'' \<or> k = ''username'' \<or> k = ''name'' \<or> k = ''location''"
  by (cases us) (auto simp: first_row_def user_summary_def)

lemma assembled_is_aggregate: "is_aggregate (assembled d post)"
proof -
  have t: "\<not> exposes_list ''password'' (map (\<lambda>t. JObj (tag_star t)) (select_tags_of_post d (p_id post)))"
    "\<not> exposes_list ''authorId'' (map (\<lambda>t. JObj (tag_star t)) (select_tags_of_post d (p_id post)))"
    by (simp_all add: tag_objects_expose)
  have a: "\<not> exposes ''password'' (first_row (map user_summary
                              (filter (\<lambda>u. u_id u = p_authorId post) (users d))))"
    "\<not> exposes ''authorId'' (first_row (map user_summary
                              (filter (\<lambda>u. u_id u = p_authorId post) (users d))))"
    using user_summary_exposes by fastforce+
  from t a show ?thesis
    by (simp add: is_aggregate_def obj_keys_def assembled_def)
qed

lemma getPostById_is_aggregate:
  "getPostById d postId = Inr v \<Longrightarrow> is_aggregate v"
  using getPostById_shape assembled_is_aggregate by blast

lemma promise_all_list_all:
  assumes "promise_all (map f xs) = Inr vs" and "\<And>x v. f x = Inr v \<Longrightarrow> P v"
  shows "list_all P vs"
  using assms
proof (induction xs arbitrary: vs)
  case Nil
  then show ?case by simp
next
  case (Cons x xs)
  from Cons.prems(1) obtain v ws where h: "f x = Inr v" "promise_all (map f xs) = Inr ws" "vs = v # ws"
    by (cases "f x"; cases "promise_all (map f xs)") auto
  from Cons.IH [OF h(2) Cons.prems(2)] Cons.prems(2) [OF h(1)] h(3) show ?case
    by simp
qed

lemma map_sum_JArr: "map_sum (\<lambda>err. err) JArr r = Inr v \<Longrightarrow> \<exists>vs. r = Inr vs \<and> v = JArr vs"
  by (cases r) auto

lemma getAllPosts_aggregates:
  assumes "getAllPosts d = Inr v"
  shows "all_aggregates v"
proof -
  from assms map_sum_JArr obtain vs where
    r: "promise_all (map (\<lambda>p. getPostById d (p_id p)) (posts d)) = Inr vs" and v: "v = JArr vs"
    unfolding getAllPosts_def by blast
  from promise_all_list_all [OF r, of is_aggregate] getPostById_is_aggregate
  have "list_all is_aggregate vs"
    by blast
  with v show ?thesis
    by (simp add: all_aggregates_def)
qed

lemma getPostsByUser_aggregates:
  assumes "getPostsByUser d userId = Inr v"
  shows "all_aggregates v"
proof -
  from assms map_sum_JArr obtain vs where
    r: "promise_all (map (\<lambda>p. getPostById d (p_id p))
          (filter (\<lambda>p. p_authorId p = userId) (posts d))) = Inr vs" and v: "v = JArr vs"
    unfolding getPostsByUser_def by blast
  from promise_all_list_all [OF r, of is_aggregate] getPostById_is_aggregate
  have "list_all is_aggregate vs"
    by blast
  with v show ?thesis
    by (simp add: all_aggregates_def)
qed

lemma getPostsByTagName_aggregates:
  assumes "getPostsByTagName d tagName = Inr v"
  shows "all_aggregates v"
proof -
  from assms map_sum_JArr obtain vs where
    r: "promise_all (map (getPostById d) (select_post_ids_by_tag d tagName)) = Inr vs"
    and v: "v = JArr vs"
    unfolding getPostsByTagName_def by blast
  from promise_all_list_all [OF r, of is_aggregate] getPostById_is_aggregate
  have "list_all is_aggregate vs"
    by blast
  with v show ?thesis
    by (simp add: all_aggregates_def)
qed

lemma addTagsToPost_Inr:
  "addTagsToPost d postId tagList = (Inr v, d') \<Longrightarrow> getPostById d' postId = Inr v"
  by (auto simp: addTagsToPost_def split: option.splits prod.splits)

lemma createPost_Inr:
  "createPost d authorId title content tagsArg = (Inr v, d') \<Longrightarrow> \<exists>i. getPostById d' i = Inr v"
  by (auto simp: createPost_def Let_def split: prod.splits sum.splits dest: addTagsToPost_Inr)

lemma updatePost_Inr:
  "updatePost d postId fs = (Inr v, d', fs') \<Longrightarrow> getPostById d' postId = Inr v"
  unfolding updatePost_def Let_def
  by (auto split: prod.splits sum.splits option.splits fval.splits if_splits)

lemma getPostById_author:
  assumes "wf_posts d" and "getPostById d postId = Inr v"
  shows "\<exists>u\<in>set (users d). prop_of ''author'' v = JObj (user_summary u)"
proof -
  from getPostById_shape [OF assms(2)] obtain post where
    p: "post \<in> set (posts d)" and v: "v = assembled d post"
    by blast
  from assms(1) p have "p_authorId post \<in> set (map u_id (users d))"
    by (auto simp: wf_posts_def list_all_iff)
  then obtain u rest where f: "filter (\<lambda>u. u_id u = p_authorId post) (users d) = u # rest"
    by (cases "filter (\<lambda>u. u_id u = p_authorId post) (users d)") (auto simp: filter_empty_conv)
  then have "u \<in> set (filter (\<lambda>u. u_id u = p_authorId post) (users d))"
    by simp
  then have "u \<in> set (users d)"
    by simp
  moreover from v f have "prop_of ''author'' v = JObj (user_summary u)"
    by (simp add: prop_of_def first_row_def assembled_def)
  ultimately show ?thesis
    by blast
qed

text \<open>
  Claim C7. Every post aggregate that getPostById returns, and so every element of what
  getAllPosts, getPostsByUser and getPostsByTagName return and every value that
  createPost, addTagsToPost and updatePost return, is an object with an \<open>author\<close> key and
  a \<open>tags\<close> array, in which no \<open>password\<close> key and no \<open>authorId\<close> key occurs at any depth.
  On a posts table that satisfies its foreign key, the author is the four-column
  projection of a user row.
\<close>

theorem aggregates_hide_password_and_authorId:
  "(getPostById d postId = Inr v \<longrightarrow> is_aggregate v) \<and>
   (getAllPosts d = Inr v1 \<longrightarrow> all_aggregates v1) \<and>
   (getPostsByUser d userId = Inr v2 \<longrightarrow> all_aggregates v2) \<and>
   (getPostsByTagName d tagName = Inr v3 \<longrightarrow> all_aggregates v3) \<and>
   (createPost d authorId title content tagsArg = (Inr v4, d4) \<longrightarrow> is_aggregate v4) \<and>
   (addTagsToPost d postId tagList = (Inr v5, d5) \<longrightarrow> is_aggregate v5) \<and>
   (updatePost d postId fs = (Inr v6, d6, fs6) \<longrightarrow> is_aggregate v6) \<and>
   (wf_posts d \<and> getPostById d postId = Inr v \<longrightarrow>
      (\<exists>u\<in>set (users d). prop_of ''author'' v = JObj (user_summary u)))"
proof -
  have 1: "getPostById d postId = Inr v \<longrightarrow> is_aggregate v"
    using getPostById_is_aggregate by blast
  have 2: "getAllPosts d = Inr v1 \<longrightarrow> all_aggregates v1"
    using getAllPosts_aggregates by blast
  have 3: "getPostsByUser d userId = Inr v2 \<longrightarrow> all_aggregates v2"
    using getPostsByUser_aggregates by blast
  have 4: "getPostsByTagName d tagName = Inr v3 \<longrightarrow> all_aggregates v3"
    using getPostsByTagName_aggregates by blast
  have 5: "createPost d authorId title content tagsArg = (Inr v4, d4) \<longrightarrow> is_aggregate v4"
    using createPost_Inr getPostById_is_aggregate by blast
  have 6: "addTagsToPost d postId tagList = (Inr v5, d5) \<longrightarrow> is_aggregate v5"
    using addTagsToPost_Inr getPostById_is_aggregate by blast
  have 7: "updatePost d postId fs = (Inr v6, d6, fs6) \<longrightarrow> is_aggregate v6"
    using updatePost_Inr getPostById_is_aggregate by blast
  have 8: "wf_posts d \<and> getPostById d postId = Inr v \<longrightarrow>
      (\<exists>u\<in>set (users d). prop_of ''author'' v = JObj (user_summary u))"
    using getPostById_author by blast
  show ?thesis
    by (intro conjI 1 2 3 4 5 6 7 8)
qed

theorem aggregates_hide_password_and_authorId_witness:
  "wf_posts example_store \<and>
   (\<exists>v. getPostById example_store 1 = Inr v \<and> is_aggregate v \<and>
      (\<exists>u\<in>set (users example_store). prop_of ''author'' v = JObj (user_summary u))) \<and>
   (\<exists>v. getAllPosts example_store = Inr v \<and> all_aggregates v) \<and>
   (\<exists>v. getPostsByUser example_store 1 = Inr v \<and> all_aggregates v) \<and>
   (\<exists>v. getPostsByTagName example_store ''#a'' = Inr v \<and> all_aggregates v) \<and>
   (\<exists>v d'. createPost example_store 1 ''T'' ''C'' (Some [''#a'']) = (Inr v, d') \<and> is_aggregate v) \<and>
   (\<exists>v d'. addTagsToPost example_store 1 (Some []) = (Inr v, d') \<and> is_aggregate v) \<and>
   (\<exists>v d' fs'. updatePost example_store 1 [] = (Inr v, d', fs') \<and> is_aggregate v)"
proof -
  have wf: "wf_posts example_store"
    using example_store_wf by (simp add: wf_db_def)
  have "\<not> isl (getPostById example_store 1)"
    by code_simp
  then obtain v where r1: "getPostById example_store 1 = Inr v"
    using Inr_of_not_isl by blast
  have "\<not> isl (getAllPosts example_store)"
    by code_simp
  then obtain v1 where r2: "getAllPosts example_store = Inr v1"
    using Inr_of_not_isl by blast
  have "\<not> isl (getPostsByUser example_store 1)"
    by code_simp
  then obtain v2 where r3: "getPostsByUser example_store 1 = Inr v2"
    using Inr_of_not_isl by blast
  have "\<not> isl (getPostsByTagName example_store ''#a'')"
    by code_simp
  then obtain v3 where r4: "getPostsByTagName example_store ''#a'' = Inr v3"
    using Inr_of_not_isl by blast
  have "\<not> isl (fst (createPost example_store 1 ''T'' ''C'' (Some [''#a''])))"
    by code_simp
  then obtain v4 d4 where r5: "createPost example_store 1 ''T'' ''C'' (Some [''#a'']) = (Inr v4, d4)"
    using Inr_of_not_isl_fst by blast
  have "\<not> isl (fst (addTagsToPost example_store 1 (Some [])))"
    by code_simp
  then obtain v5 d5 where r6: "addTagsToPost example_store 1 (Some []) = (Inr v5, d5)"
    using Inr_of_not_isl_fst by blast
  have "\<not> isl (fst (updatePost example_store 1 []))"
    by code_simp
  then obtain v6 s6 where "updatePost example_store 1 [] = (Inr v6, s6)"
    using Inr_of_not_isl_fst by blast
  then obtain d6 fs6 where r7: "updatePost example_store 1 [] = (Inr v6, d6, fs6)"
    by (cases s6) auto
  note t = aggregates_hide_password_and_authorId
    [where d = example_store and postId = 1 and v = v and ?v1.0 = v1 and userId = 1
       and ?v2.0 = v2 and tagName = "''#a''" and ?v3.0 = v3 and authorId = 1
       and title = "''T''" and content = "''C''" and tagsArg = "Some [''#a'']"
       and ?v4.0 = v4 and ?d4.0 = d4 and tagList = "Some []" and ?v5.0 = v5 and ?d5.0 = d5
       and fs = "[]" and ?v6.0 = v6 and ?d6.0 = d6 and ?fs6.0 = fs6]
  from wf r1 r2 r3 r4 r5 r6 r7 t show ?thesis
    by blast
qed

subsection \<open>Where the password is returned\<close>

lemma is_aggregate_no_password: "is_aggregate v \<Longrightarrow> \<not> exposes ''password'' v"
  by (cases v) (simp_all add: is_aggregate_def)

lemma list_all_not_exposes:
  "list_all (\<lambda>v. \<not> exposes k v) vs \<Longrightarrow> \<not> exposes_list k vs"
  by (induction vs) simp_all

lemma all_aggregates_no_password: "all_aggregates v \<Longrightarrow> \<not> exposes ''password'' v"
proof (cases v)
  case (JArr vs)
  assume "all_aggregates v"
  with JArr have "list_all is_aggregate vs"
    by (simp add: all_aggregates_def)
  then have "list_all (\<lambda>v. \<not> exposes ''password'' v) vs"
    by (auto simp: list_all_iff is_aggregate_no_password)
  with JArr show ?thesis
    by (simp add: list_all_not_exposes)
qed (simp_all add: all_aggregates_def)

lemma getAllUsers_no_password: "getAllUsers d = Inr v \<Longrightarrow> \<not> exposes ''password'' v"
proof -
  have "\<not> exposes_list ''password'' (map (\<lambda>u. JObj (user_summary u)) us)" for us
    by (induction us) (simp_all add: user_summary_def)
  then show "getAllUsers d = Inr v \<Longrightarrow> \<not> exposes ''password'' v"
    by (auto simp: getAllUsers_def)
qed

lemma getUserById_no_password:
  assumes "getUserById d userId = Inr v"
  shows "\<not> exposes ''password'' v"
proof (cases "filter (\<lambda>u. u_id u = userId) (users d)")
  case Nil
  with assms show ?thesis
    by (auto simp: getUserById_def)
next
  case (Cons user rest)
  show ?thesis
  proof (cases "u_id user = 0")
    case True
    with assms Cons show ?thesis
      by (auto simp: getUserById_def)
  next
    case False
    with assms Cons obtain ps where
      ps: "getPostsByUser d (u_id user) = Inr ps"
      and v: "v = JObj (set_prop ''posts'' ps (user_by_id_cols user))"
      by (auto simp: getUserById_def split: sum.splits)
    from getPostsByUser_aggregates [OF ps] have "\<not> exposes ''password'' ps"
      by (rule all_aggregates_no_password)
    with v show ?thesis
      by (simp add: user_by_id_cols_def)
  qed
qed

lemma first_row_user_star:
  "first_row (map user_star rows) \<noteq> JUndefined \<Longrightarrow> exposes ''password'' (first_row (map user_star rows))"
  by (cases rows) (simp_all add: first_row_def user_star_def)

lemma createUser_password:
  "createUser d a = (Inr v, d') \<Longrightarrow> v \<noteq> JUndefined \<Longrightarrow> exposes ''password'' v"
  by (auto simp: createUser_def split: prod.splits sum.splits dest: first_row_user_star)

lemma updateUser_password:
  "updateUser d userId fs = (Inr v, d') \<Longrightarrow> v \<noteq> JUndefined \<Longrightarrow> exposes ''password'' v"
  by (auto simp: updateUser_def split: prod.splits sum.splits if_splits dest: first_row_user_star)

lemma getUserByUsername_password:
  "getUserByUsername d un = Inr v \<Longrightarrow> v \<noteq> JUndefined \<Longrightarrow> exposes ''password'' v"
  by (auto simp: getUserByUsername_def dest: first_row_user_star)

text \<open>
  getUserByUsername selects every column: on the small store the object it returns
  for \<open>alice\<close> carries her password.
\<close>

theorem password_returned_counterexample:
  "getUserByUsername example_store ''alice'' = Inr (JObj (user_star alice)) \<and>
   prop_of ''password'' (JObj (user_star alice)) = JStr ''pw'' \<and>
   exposes ''password'' (JObj (user_star alice))"
  by (simp add: getUserByUsername_def example_store_def alice_def first_row_def user_star_def
      prop_of_def)

text \<open>
  Claim C8, amended. The password is never returned by getAllUsers, by getUserById, or
  in anything that getPostById, getAllPosts, getPostsByUser, getPostsByTagName,
  createPost, addTagsToPost and updatePost return. createUser, updateUser and
  getUserByUsername return the whole user row: whenever they return a user, the
  object has the \<open>password\<close> key.
\<close>

theorem password_only_in_raw_user_rows:
  "(getAllUsers d = Inr v1 \<longrightarrow> \<not> exposes ''password'' v1) \<and>
   (getUserById d userId = Inr v2 \<longrightarrow> \<not> exposes ''password'' v2) \<and>
   (getPostById d postId = Inr v3 \<longrightarrow> \<not> exposes ''password'' v3) \<and>
   (getAllPosts d = Inr v4 \<longrightarrow> \<not> exposes ''password'' v4) \<and>
   (getPostsByUser d userId = Inr v5 \<longrightarrow> \<not> exposes ''password'' v5) \<and>
   (getPostsByTagName d tagName = Inr v6 \<longrightarrow> \<not> exposes ''password'' v6) \<and>
   (createPost d authorId title content tagsArg = (Inr v7, d7) \<longrightarrow> \<not> exposes ''password'' v7) \<and>
   (addTagsToPost d postId tagList = (Inr v8, d8) \<longrightarrow> \<not> exposes ''password'' v8) \<and>
   (updatePost d postId fs = (Inr v9, d9, fs9) \<longrightarrow> \<not> exposes ''password'' v9) \<and>
   (createUser d a = (Inr w1, e1) \<and> w1 \<noteq> JUndefined \<longrightarrow> exposes ''password'' w1) \<and>
   (updateUser d userId ufs = (Inr w2, e2) \<and> w2 \<noteq> JUndefined \<longrightarrow> exposes ''password'' w2) \<and>
   (getUserByUsername d un = Inr w3 \<and> w3 \<noteq> JUndefined \<longrightarrow> exposes ''password'' w3)"
proof -
  have 1: "getAllUsers d = Inr v1 \<longrightarrow> \<not> exposes ''password'' v1"
    using getAllUsers_no_password by blast
  have 2: "getUserById d userId = Inr v2 \<longrightarrow> \<not> exposes ''password'' v2"
    using getUserById_no_password by blast
  have 3: "getPostById d postId = Inr v3 \<longrightarrow> \<not> exposes ''password'' v3"
    using getPostById_is_aggregate is_aggregate_no_password by blast
  have 4: "getAllPosts d = Inr v4 \<longrightarrow> \<not> exposes ''password'' v4"
    using getAllPosts_aggregates all_aggregates_no_password by blast
  have 5: "getPostsByUser d userId = Inr v5 \<longrightarrow> \<not> exposes ''password'' v5"
    using getPostsByUser_aggregates all_aggregates_no_password by blast
  have 6: "getPostsByTagName d tagName = Inr v6 \<longrightarrow> \<not> exposes ''password'' v6"
    using getPostsByTagName_aggregates all_aggregates_no_password by blast
  have 7: "createPost d authorId title content tagsArg = (Inr v7, d7) \<longrightarrow> \<not> exposes ''password'' v7"
    using createPost_Inr getPostById_is_aggregate is_aggregate_no_password by blast
  have 8: "addTagsToPost d postId tagList = (Inr v8, d8) \<longrightarrow> \<not> exposes ''password'' v8"
    using addTagsToPost_Inr getPostById_is_aggregate is_aggregate_no_password by blast
  have 9: "updatePost d postId fs = (Inr v9, d9, fs9) \<longrightarrow> \<not> exposes ''password'' v9"
    using updatePost_Inr getPostById_is_aggregate is_aggregate_no_password by blast
  have 10: "createUser d a = (Inr w1, e1) \<and> w1 \<noteq> JUndefined \<longrightarrow> exposes ''password'' w1"
    using createUser_password by blast
  have 11: "updateUser d userId ufs = (Inr w2, e2) \<and> w2 \<noteq> JUndefined \<longrightarrow> exposes ''password'' w2"
    using updateUser_password by blast
  have 12: "getUserByUsername d un = Inr w3 \<and> w3 \<noteq> JUndefined \<longrightarrow> exposes ''password'' w3"
    using getUserByUsername_password by blast
  show ?thesis
    by (intro conjI 1 2 3 4 5 6 7 8 9 10 11 12)
qed

theorem password_only_in_raw_user_rows_witness:
  "(\<exists>v. getAllUsers example_store = Inr v \<and> \<not> exposes ''password'' v) \<and>
   (\<exists>v. getUserById example_store 1 = Inr v \<and> \<not> exposes ''password'' v) \<and>
   (\<exists>v. getPostById example_store 1 = Inr v \<and> \<not> exposes ''password'' v) \<and>
   (\<exists>v. getAllPosts example_store = Inr v \<and> \<not> exposes ''password'' v) \<and>
   (\<exists>v. getPostsByUser example_store 1 = Inr v \<and> \<not> exposes ''password'' v) \<and>
   (\<exists>v. getPostsByTagName example_store ''#a'' = Inr v \<and> \<not> exposes ''password'' v) \<and>
   (\<exists>v d'. createPost example_store 1 ''T'' ''C'' (Some [''#a'']) = (Inr v, d') \<and>
      \<not> exposes ''password'' v) \<and>
   (\<exists>v d'. addTagsToPost example_store 1 (Some []) = (Inr v, d') \<and> \<not> exposes ''password'' v) \<and>
   (\<exists>v d' fs'. updatePost example_store 1 [(''title'', VText ''T'')] = (Inr v, d', fs') \<and>
      \<not> exposes ''password'' v) \<and>
   (\<exists>v d'. createUser example_store bob = (Inr v, d') \<and> v \<noteq> JUndefined \<and>
      exposes ''password'' v) \<and>
   (\<exists>v d'. updateUser example_store 1 [(''name'', VText ''Al'')] = (Inr v, d') \<and> v \<noteq> JUndefined \<and>
      exposes ''password'' v) \<and>
   (\<exists>v. getUserByUsername example_store ''alice'' = Inr v \<and> v \<noteq> JUndefined \<and>
      exposes ''password'' v)"
proof -
  have "\<not> isl (getAllUsers example_store)"
    by code_simp
  then obtain v1 where r1: "getAllUsers example_store = Inr v1"
    using Inr_of_not_isl by blast
  have "\<not> isl (getUserById example_store 1)"
    by code_simp
  then obtain v2 where r2: "getUserById example_store 1 = Inr v2"
    using Inr_of_not_isl by blast
  have "\<not> isl (getPostById example_store 1)"
    by code_simp
  then obtain v3 where r3: "getPostById example_store 1 = Inr v3"
    using Inr_of_not_isl by blast
  have "\<not> isl (getAllPosts example_store)"
    by code_simp
  then obtain v4 where r4: "getAllPosts example_store = Inr v4"
    using Inr_of_not_isl by blast
  have "\<not> isl (getPostsByUser example_store 1)"
    by code_simp
  then obtain v5 where r5: "getPostsByUser example_store 1 = Inr v5"
    using Inr_of_not_isl by blast
  have "\<not> isl (getPostsByTagName example_store ''#a'')"
    by code_simp
  then obtain v6 where r6: "getPostsByTagName example_store ''#a'' = Inr v6"
    using Inr_of_not_isl by blast
  have "\<not> isl (fst (createPost example_store 1 ''T'' ''C'' (Some [''#a''])))"
    by code_simp
  then obtain v7 d7 where r7: "createPost example_store 1 ''T'' ''C'' (Some [''#a'']) = (Inr v7, d7)"
    using Inr_of_not_isl_fst by blast
  have "\<not> isl (fst (addTagsToPost example_store 1 (Some [])))"
    by code_simp
  then obtain v8 d8 where r8: "addTagsToPost example_store 1 (Some []) = (Inr v8, d8)"
    using Inr_of_not_isl_fst by blast
  have "\<not> isl (fst (updatePost example_store 1 [(''title'', VText ''T'')]))"
    by code_simp
  then obtain v9 s9 where "updatePost example_store 1 [(''title'', VText ''T'')] = (Inr v9, s9)"
    using Inr_of_not_isl_fst by blast
  then obtain d9 fs9 where r9: "updatePost example_store 1 [(''title'', VText ''T'')] = (Inr v9, d9, fs9)"
    by (cases s9) auto
  have "\<not> isl (fst (createUser example_store bob))"
    by code_simp
  then obtain w1 e1 where r10: "createUser example_store bob = (Inr w1, e1)"
    using Inr_of_not_isl_fst by blast
  have "fst (createUser example_store bob) \<noteq> Inr JUndefined"
    by code_simp
  with r10 have n10: "w1 \<noteq> JUndefined"
    by auto
  have "\<not> isl (fst (updateUser example_store 1 [(''name'', VText ''Al'')]))"
    by code_simp
  then obtain w2 e2 where r11: "updateUser example_store 1 [(''name'', VText ''Al'')] = (Inr w2, e2)"
    using Inr_of_not_isl_fst by blast
  have "fst (updateUser example_store 1 [(''name'', VText ''Al'')]) \<noteq> Inr JUndefined"
    by code_simp
  with r11 have n11: "w2 \<noteq> JUndefined"
    by auto
  have "\<not> isl (getUserByUsername example_store ''alice'')"
    by code_simp
  then obtain w3 where r12: "getUserByUsername example_store ''alice'' = Inr w3"
    using Inr_of_not_isl by blast
  have "getUserByUsername example_store ''alice'' \<noteq> Inr JUndefined"
    by code_simp
  with r12 have n12: "w3 \<noteq> JUndefined"
    by auto
  note t = password_only_in_raw_user_rows
    [where d = example_store and userId = 1 and postId = 1 and tagName = "''#a''"
       and authorId = 1 and title = "''T''" and content = "''C''" and tagsArg = "Some [''#a'']"
       and tagList = "Some []" and fs = "[(''title'', VText ''T'')]"
       and ufs = "[(''name'', VText ''Al'')]" and a = bob and ?v9.0 = v9 and ?d9.0 = d9
       and ?fs9.0 = fs9
       and un = "''alice''" and ?v1.0 = v1 and ?v2.0 = v2 and ?v3.0 = v3 and ?v4.0 = v4
       and ?v5.0 = v5 and ?v6.0 = v6 and ?v7.0 = v7 and ?d7.0 = d7 and ?v8.0 = v8 and ?d8.0 = d8
       and ?w1.0 = w1 and ?e1.0 = e1 and ?w2.0 = w2 and ?e2.0 = e2 and ?w3.0 = w3]
  have p1: "\<not> exposes ''password'' v1" using r1 t by blast
  have p2: "\<not> exposes ''password'' v2" using r2 t by blast
  have p3: "\<not> exposes ''password'' v3" using r3 t by blast
  have p4: "\<not> exposes ''password'' v4" using r4 t by blast
  have p5: "\<not> exposes ''password'' v5" using r5 t by blast
  have p6: "\<not> exposes ''password'' v6" using r6 t by blast
  have p7: "\<not> exposes ''password'' v7" using r7 t by blast
  have p8: "\<not> exposes ''password'' v8" using r8 t by blast
  have p9: "\<not> exposes ''password'' v9" using r9 t by blast
  have p10: "exposes ''password'' w1" using r10 n10 t by blast
  have p11: "exposes ''password'' w2" using r11 n11 t by blast
  have p12: "exposes ''password'' w3" using r12 n12 t by blast
  show ?thesis
    using r1 p1 r2 p2 r3 p3 r4 p4 r5 p5 r6 p6 r7 p7 r8 p8 r9 p9 r10 n10 p10 r11 n11 p11 r12 n12 p12
    by (intro conjI) blast+
qed

subsection \<open>Creating a post without tags\<close>

text \<open>
  Claim C4. On a store that satisfies the schema, for an author who exists, createPost
  with the tag list left out or empty inserts the post row and then ends in a
  TypeError: createTags returns \<open>undefined\<close> for the empty list and addTagsToPost calls
  \<open>map\<close> on it. The store that is left holds the new post row, under a fresh id, with
  no row of the join table for it; nothing is rolled back.
\<close>

theorem createPost_without_tags:
  assumes "wf_db d" and "authorId \<in> set (map u_id (users d))"
    and "tagsArg = None \<or> tagsArg = Some []"
  shows "\<exists>post d1.
           createPost d authorId title content tagsArg = (Inl TypeError, d1) \<and>
           post = \<lparr>p_id = posts_seq d + 1, p_authorId = authorId,
                    p_title = title, p_content = content\<rparr> \<and>
           posts d1 = posts d @ [post] \<and>
           p_id post \<notin> set (map p_id (posts d)) \<and>
           \<not> list_ex (\<lambda>r. fst r = p_id post) (post_tags d1) \<and>
           users d1 = users d \<and> tags d1 = tags d \<and> post_tags d1 = post_tags d"
proof -
  let ?post = "\<lparr>p_id = posts_seq d + 1, p_authorId = authorId,
                  p_title = title, p_content = content\<rparr>"
  from assms(1) have wfp: "wf_posts d" and wfj: "wf_post_tags d"
    by (simp_all add: wf_db_def)
  from insert_post_ok [OF wfp assms(2)] obtain d1 where
    ins: "insert_post d authorId title content = (Inr ?post, d1)"
    by blast
  note fr = insert_post_Inr [OF ins]
  from assms(3) have "(case tagsArg of None \<Rightarrow> [] | Some ns \<Rightarrow> ns) = []"
    by auto
  with ins have res: "createPost d authorId title content tagsArg = (Inl TypeError, d1)"
    by (simp add: createPost_def createTags_def addTagsToPost_def)
  from wfp have fresh: "p_id ?post \<notin> set (map p_id (posts d))"
    by (auto simp: wf_posts_def list_all_iff)
  from wfj fresh fr have none: "\<not> list_ex (\<lambda>r. fst r = p_id ?post) (post_tags d1)"
    by (auto simp: wf_post_tags_def list_all_iff list_ex_iff)
  from res fr fresh none show ?thesis
    by blast
qed

theorem createPost_without_tags_witness:
  "wf_db example_store \<and> 1 \<in> set (map u_id (users example_store)) \<and>
   (\<exists>post d1. createPost example_store 1 ''Second'' ''post'' None = (Inl TypeError, d1) \<and>
      posts d1 = posts example_store @ [post]) \<and>
   (\<exists>post d1. createPost example_store 1 ''Second'' ''post'' (Some []) = (Inl TypeError, d1) \<and>
      posts d1 = posts example_store @ [post])"
proof -
  have a: "1 \<in> set (map u_id (users example_store))"
    by (simp add: example_store_def alice_def)
  from createPost_without_tags [OF example_store_wf a, of None "''Second''" "''post''"]
  have n: "\<exists>post d1. createPost example_store 1 ''Second'' ''post'' None = (Inl TypeError, d1) \<and>
      posts d1 = posts example_store @ [post]"
    by blast
  from createPost_without_tags [OF example_store_wf a, of "Some []" "''Second''" "''post''"]
  have e: "\<exists>post d1. createPost example_store 1 ''Second'' ''post'' (Some []) = (Inl TypeError, d1) \<and>
      posts d1 = posts example_store @ [post]"
    by blast
  from example_store_wf a n e show ?thesis
    by blast
qed

subsection \<open>Creating a user twice\<close>

lemma insert_user_conflict:
  "list_ex (\<lambda>u. u_username u = un) (users d) \<Longrightarrow>
   insert_user d un pw nm loc = (Inr [], d\<lparr>users_seq := users_seq d + 1\<rparr>)"
  by (simp add: insert_user_def Let_def)

lemma insert_user_fresh:
  assumes "wf_users d" and "\<not> list_ex (\<lambda>u. u_username u = un) (users d)"
  shows "insert_user d un pw nm loc =
           (Inr [\<lparr>u_id = users_seq d + 1, u_username = un, u_password = pw,
                   u_name = nm, u_location = loc\<rparr>],
            d\<lparr>users_seq := users_seq d + 1,
              users := users d @ [\<lparr>u_id = users_seq d + 1, u_username = un, u_password = pw,
                                   u_name = nm, u_location = loc\<rparr>]\<rparr>)"
proof -
  from assms(1) have "\<not> list_ex (\<lambda>u. u_id u = users_seq d + 1) (users d)"
    by (auto simp: wf_users_def list_ex_iff list_all_iff)
  with assms(2) show ?thesis
    by (simp add: insert_user_def Let_def)
qed

text \<open>
  Claim C6. When the username is already taken, createUser inserts nothing and returns
  \<open>undefined\<close>, not an error; the users table is unchanged. On a users table that
  satisfies its constraints and does not hold the username, the first call returns
  the new row and a second call with the same username returns \<open>undefined\<close>; the table
  then holds exactly one row with that username.
\<close>

theorem createUser_conflict_tolerance:
  "(list_ex (\<lambda>u. u_username u = username a) (users d) \<longrightarrow>
      (\<exists>d'. createUser d a = (Inr JUndefined, d') \<and> users d' = users d)) \<and>
   (wf_users d \<and> \<not> list_ex (\<lambda>u. u_username u = username a) (users d) \<and>
    username b = username a \<longrightarrow>
      (\<exists>row d1 d2.
         createUser d a = (Inr (JObj (user_star row)), d1) \<and>
         u_username row = username a \<and> u_password row = password a \<and>
         u_name row = name a \<and> u_location row = location a \<and>
         users d1 = users d @ [row] \<and>
         createUser d1 b = (Inr JUndefined, d2) \<and>
         users d2 = users d1 \<and>
         length (filter (\<lambda>u. u_username u = username a) (users d2)) = 1))"
proof -
  have skip: "\<exists>d'. createUser d a = (Inr JUndefined, d') \<and> users d' = users d"
    if "list_ex (\<lambda>u. u_username u = username a) (users d)"
    using insert_user_conflict [OF that]
    by (simp add: createUser_def first_row_def)
  have twice: "\<exists>row d1 d2.
         createUser d a = (Inr (JObj (user_star row)), d1) \<and>
         u_username row = username a \<and> u_password row = password a \<and>
         u_name row = name a \<and> u_location row = location a \<and>
         users d1 = users d @ [row] \<and>
         createUser d1 b = (Inr JUndefined, d2) \<and>
         users d2 = users d1 \<and>
         length (filter (\<lambda>u. u_username u = username a) (users d2)) = 1"
    if wf: "wf_users d" and fresh: "\<not> list_ex (\<lambda>u. u_username u = username a) (users d)"
      and same: "username b = username a"
  proof -
    let ?row = "\<lparr>u_id = users_seq d + 1, u_username = username a, u_password = password a,
                  u_name = name a, u_location = location a\<rparr>"
    let ?d1 = "d\<lparr>users_seq := users_seq d + 1, users := users d @ [?row]\<rparr>"
    have first: "createUser d a = (Inr (JObj (user_star ?row)), ?d1)"
      using insert_user_fresh [OF wf fresh]
      by (simp add: createUser_def first_row_def)
    have taken: "list_ex (\<lambda>u. u_username u = username b) (users ?d1)"
      using same by simp
    have second: "createUser ?d1 b = (Inr JUndefined, ?d1\<lparr>users_seq := users_seq ?d1 + 1\<rparr>)"
      using insert_user_conflict [OF taken]
      by (simp add: createUser_def first_row_def)
    from fresh have "filter (\<lambda>u. u_username u = username a) (users d) = []"
      by (auto simp: list_ex_iff filter_empty_conv)
    then have count: "length (filter (\<lambda>u. u_username u = username a)
                        (users (?d1\<lparr>users_seq := users_seq ?d1 + 1\<rparr>))) = 1"
      by simp
    show ?thesis
      apply (rule exI [of _ ?row])
      apply (rule exI [of _ ?d1])
      apply (rule exI [of _ "?d1\<lparr>users_seq := users_seq ?d1 + 1\<rparr>"])
      using first second count by simp
  qed
  from skip twice show ?thesis
    by blast
qed

theorem createUser_conflict_tolerance_witness:
  "list_ex (\<lambda>u. u_username u = ''alice'') (users example_store) \<and>
   (\<exists>d'. createUser example_store \<lparr>username = ''alice'', password = ''x'', name = ''A'', location = ''B''\<rparr>
            = (Inr JUndefined, d') \<and> users d' = users example_store) \<and>
   wf_users empty_store \<and> \<not> list_ex (\<lambda>u. u_username u = ''bob'') (users empty_store) \<and>
   (\<exists>row d1 d2.
      createUser empty_store bob = (Inr (JObj (user_star row)), d1) \<and>
      createUser d1 bob = (Inr JUndefined, d2) \<and>
      length (filter (\<lambda>u. u_username u = ''bob'') (users d2)) = 1)"
proof -
  have h1: "list_ex (\<lambda>u. u_username u = ''alice'') (users example_store)"
    by (simp add: example_store_def alice_def)
  have h2: "wf_users empty_store" "\<not> list_ex (\<lambda>u. u_username u = ''bob'') (users empty_store)"
    by (simp_all add: wf_users_def empty_store_def)
  have n: "username bob = ''bob''"
    by (simp add: bob_def)
  from h1 createUser_conflict_tolerance
         [of "\<lparr>username = ''alice'', password = ''x'', name = ''A'', location = ''B''\<rparr>" example_store bob]
  have p1: "\<exists>d'. createUser example_store \<lparr>username = ''alice'', password = ''x'', name = ''A'', location = ''B''\<rparr>
            = (Inr JUndefined, d') \<and> users d' = users example_store"
    by simp
  from h2 n createUser_conflict_tolerance [of bob empty_store bob]
  have p2: "\<exists>row d1 d2.
      createUser empty_store bob = (Inr (JObj (user_star row)), d1) \<and>
      createUser d1 bob = (Inr JUndefined, d2) \<and>
      length (filter (\<lambda>u. u_username u = ''bob'') (users d2)) = 1"
    by auto
  from h1 h2 p1 p2 show ?thesis
    by blast
qed

subsection \<open>Updates that change nothing\<close>

text \<open>
  Claim C9. \<open>updateUser(id, {})\<close> issues no statement: it returns \<open>undefined\<close> and the store
  is the one it was given, whatever the id. \<open>updatePost(id, {})\<close> issues no write either:
  the store is unchanged and the result is that of reading the post again, which is
  the post aggregate when the post exists.
\<close>

theorem noop_updates:
  "updateUser d userId [] = (Inr JUndefined, d) \<and>
   updatePost d postId [] = (getPostById d postId, d, []) \<and>
   (list_ex (\<lambda>p. p_id p = postId) (posts d) \<longrightarrow>
      (\<exists>ob. updatePost d postId [] = (Inr (JObj ob), d, [])))"
proof -
  have user: "updateUser d userId [] = (Inr JUndefined, d)"
    by (simp add: updateUser_def setString_def)
  have post: "updatePost d postId [] = (getPostById d postId, d, [])"
    by (simp add: updatePost_def setString_def delete_prop_def)
  from user post getPostById_found [of postId d] show ?thesis
    by auto
qed

theorem noop_updates_witness:
  "list_ex (\<lambda>p. p_id p = 1) (posts example_store) \<and>
   updateUser example_store 1 [] = (Inr JUndefined, example_store) \<and>
   (\<exists>ob. updatePost example_store 1 [] = (Inr (JObj ob), example_store, []))"
proof -
  have found: "list_ex (\<lambda>p. p_id p = 1) (posts example_store)"
    by (simp add: example_store_def hello_def)
  with noop_updates [of example_store 1 1] show ?thesis
    by blast
qed

subsection \<open>Tag reconciliation\<close>

lemma createPostTagPromises_links:
  assumes "postId \<in> set (map p_id (posts d))"
    and "\<forall>t\<in>set tgs. t_id t \<in> set (map t_id (tags d))"
    and "distinct (map t_id tgs)"
  shows "\<exists>d'. createPostTagPromises d postId tgs = (None, d') \<and>
           post_tags d' = post_tags d @
             filter (\<lambda>r. r \<notin> set (post_tags d)) (map (\<lambda>t. (postId, t_id t)) tgs)"
  using assms
proof (induction tgs arbitrary: d)
  case Nil
  then show ?case by simp
next
  case (Cons tag rest)
  obtain r d1 where s1: "createPostTag d postId (t_id tag) = (r, d1)"
    by (cases "createPostTag d postId (t_id tag)")
  note fr = createPostTag_frame [OF s1]
  from Cons.prems have ok: "postId \<in> set (map p_id (posts d))" "t_id tag \<in> set (map t_id (tags d))"
    by simp_all
  from Cons.prems fr have pre: "postId \<in> set (map p_id (posts d1))"
    "\<forall>t\<in>set rest. t_id t \<in> set (map t_id (tags d1))" "distinct (map t_id rest)"
    by simp_all
  from Cons.IH [OF pre] obtain d' where
    ih: "createPostTagPromises d1 postId rest = (None, d')"
        "post_tags d' = post_tags d1 @
           filter (\<lambda>r. r \<notin> set (post_tags d1)) (map (\<lambda>t. (postId, t_id t)) rest)"
    by blast
  show ?case
  proof (cases "(postId, t_id tag) \<in> set (post_tags d)")
    case True
    with s1 have "r = Inr ()" "d1 = d"
      by (simp_all add: createPostTag_def)
    with s1 ih True show ?thesis
      by simp
  next
    case False
    with s1 ok have r: "r = Inr ()" and p1: "post_tags d1 = post_tags d @ [(postId, t_id tag)]"
      by (auto simp: createPostTag_def)
    from Cons.prems(3) have "t_id tag \<notin> t_id ` set rest"
      by simp
    have "\<forall>t\<in>set rest. (postId, t_id t) \<noteq> (postId, t_id tag)"
    proof
      fix t
      assume "t \<in> set rest"
      then have "t_id t \<in> t_id ` set rest"
        by (rule imageI)
      with \<open>t_id tag \<notin> t_id ` set rest\<close> have "t_id t \<noteq> t_id tag"
        by metis
      then show "(postId, t_id t) \<noteq> (postId, t_id tag)"
        by simp
    qed
    then have "filter (\<lambda>r. r \<notin> set (post_tags d1)) (map (\<lambda>t. (postId, t_id t)) rest) =
               filter (\<lambda>r. r \<notin> set (post_tags d)) (map (\<lambda>t. (postId, t_id t)) rest)"
      using p1 by (intro filter_cong) auto
    with s1 ih r p1 False show ?thesis
      by simp
  qed
qed

lemma set_select_tags_of_post:
  "set (select_tags_of_post d postId) =
     {t \<in> set (tags d). (postId, t_id t) \<in> set (post_tags d)}"
  by (force simp: select_tags_of_post_def)

lemma getPostById_tags:
  assumes "getPostById d postId = Inr v"
  shows "prop_of ''tags'' v = JArr (map (\<lambda>t. JObj (tag_star t)) (select_tags_of_post d postId))"
proof -
  from getPostById_shape [OF assms] obtain post where
    "p_id post = postId" "v = assembled d post"
    by blast
  then show ?thesis
    by (simp add: assembled_def prop_of_def)
qed

text \<open>
  Claim C1. On a store that satisfies the schema, for a post that exists and a
  non-empty list \<open>D\<close> of tag names, \<open>updatePost(postId, {tags: D})\<close> returns the post as
  getPostById reads it from the store it leaves, and in that store the tags linked to
  the post are exactly the rows of the tags table whose name is in \<open>D\<close>, whatever was
  linked before: their names are exactly \<open>D\<close>, every name of \<open>D\<close> has exactly one tag
  row, and a join row for the post exists for a tag id if and only if it is the id of
  such a tag. The join table afterwards is the old one without the rows of this post
  whose tag is not named in \<open>D\<close>, followed by the pairs that were missing: rows of the
  post for tags named in \<open>D\<close> stay where they were, rows of other posts are untouched,
  and the tag rows that existed keep their ids.
\<close>

theorem updatePost_reconciles_tags:
  assumes wf: "wf_db d" and ex: "list_ex (\<lambda>p. p_id p = postId) (posts d)" and ne: "D \<noteq> []"
  shows "\<exists>ob d'.
           updatePost d postId [(''tags'', VList D)] = (Inr (JObj ob), d', []) \<and>
           getPostById d' postId = Inr (JObj ob) \<and>
           prop_of ''tags'' (JObj ob) =
             JArr (map (\<lambda>t. JObj (tag_star t)) (select_tags_of_post d' postId)) \<and>
           set (select_tags_of_post d' postId) = {t \<in> set (tags d'). t_name t \<in> set D} \<and>
           t_name ` set (select_tags_of_post d' postId) = set D \<and>
           (\<forall>tagId. (postId, tagId) \<in> set (post_tags d') \<longleftrightarrow>
              tagId \<in> t_id ` {t \<in> set (tags d'). t_name t \<in> set D}) \<and>
           post_tags d' =
             filter (\<lambda>r. fst r \<noteq> postId \<or> snd r \<in> t_id ` {t \<in> set (tags d'). t_name t \<in> set D})
               (post_tags d) @
             filter (\<lambda>r. r \<notin> set (post_tags d))
               (map (\<lambda>t. (postId, t_id t)) (select_tags_in d' D)) \<and>
           (\<forall>n\<in>set D. length (filter (\<lambda>t. t_name t = n) (tags d')) = 1) \<and>
           set (tags d) \<subseteq> set (tags d') \<and> posts d' = posts d \<and> users d' = users d"
proof -
  from wf have wft: "wf_tags d"
    by (simp add: wf_db_def)
  from createTags_result [OF wft ne] obtain rows d2 where
    c: "createTags d D = (Inr (Some rows), d2)" and wf2: "wf_tags d2"
    and rows: "rows = select_tags_in d2 D"
    and one: "\<forall>n\<in>set D. length (filter (\<lambda>t. t_name t = n) (tags d2)) = 1"
    and names: "t_name ` set rows = set D"
    and grow: "\<exists>new. tags d2 = tags d @ new"
    and fr2: "users d2 = users d" "posts d2 = posts d" "post_tags d2 = post_tags d"
    by blast
  from names ne have rne: "rows \<noteq> []"
    by auto
  define ids where "ids = map t_id rows"
  define d3 where "d3 = d2\<lparr>post_tags :=
      filter (\<lambda>r. \<not> (snd r \<notin> set ids \<and> fst r = postId)) (post_tags d2)\<rparr>"
  from rne have del: "delete_post_tags d2 ids postId = (Inr (), d3)"
    by (simp add: delete_post_tags_def ids_def d3_def)
  have fr3: "users d3 = users d" "posts d3 = posts d" "tags d3 = tags d2"
    "post_tags d3 = filter (\<lambda>r. fst r \<noteq> postId \<or> snd r \<in> set ids) (post_tags d)"
    using fr2 by (auto simp: d3_def intro: filter_cong)
  from ex fr3 have p3: "postId \<in> set (map p_id (posts d3))"
    by (auto simp: list_ex_iff)
  from rows fr3 have sub: "\<forall>t\<in>set rows. t_id t \<in> set (map t_id (tags d3))"
    by (auto simp: select_tags_in_def)
  from wf2 have dis2: "distinct (map t_id (tags d2))"
    by (simp add: wf_tags_def)
  with rows have dis: "distinct (map t_id rows)"
    by (simp add: select_tags_in_def distinct_map_filter)
  from createPostTagPromises_links [OF p3 sub dis] obtain d4 where
    l: "createPostTagPromises d3 postId rows = (None, d4)" and
    pt4: "post_tags d4 = post_tags d3 @
            filter (\<lambda>r. r \<notin> set (post_tags d3)) (map (\<lambda>t. (postId, t_id t)) rows)"
    by blast
  note fr4 = createPostTagPromises_frame [OF l]
  from fr4 fr3 have t4: "tags d4 = tags d2" and p4: "posts d4 = posts d" and u4: "users d4 = users d"
    by simp_all
  from ex p4 have "list_ex (\<lambda>p. p_id p = postId) (posts d4)"
    by simp
  from getPostById_found [OF this] obtain ob where g: "getPostById d4 postId = Inr (JObj ob)"
    by blast
  from l g have a: "addTagsToPost d3 postId (Some rows) = (Inr (JObj ob), d4)"
    by (simp add: addTagsToPost_def)
  from c del a g have res: "updatePost d postId [(''tags'', VList D)] = (Inr (JObj ob), d4, [])"
    by (simp add: updatePost_def delete_prop_def setString_def ids_def)
  have rows4: "rows = select_tags_in d4 D"
    using rows t4 by (simp add: select_tags_in_def)
  have named: "{t \<in> set (tags d4). t_name t \<in> set D} = set rows"
    using rows4 by (auto simp: select_tags_in_def)
  have idset: "set ids = t_id ` {t \<in> set (tags d4). t_name t \<in> set D}"
    using named by (simp add: ids_def)
  have new: "filter (\<lambda>r. r \<notin> set (post_tags d3)) (map (\<lambda>t. (postId, t_id t)) rows) =
             filter (\<lambda>r. r \<notin> set (post_tags d)) (map (\<lambda>t. (postId, t_id t)) rows)"
    by (rule filter_cong) (auto simp: fr3 ids_def)
  have list: "post_tags d4 =
      filter (\<lambda>r. fst r \<noteq> postId \<or> snd r \<in> set ids) (post_tags d) @
      filter (\<lambda>r. r \<notin> set (post_tags d)) (map (\<lambda>t. (postId, t_id t)) rows)"
    using pt4 new fr3 by simp
  have linked: "(postId, tagId) \<in> set (post_tags d4) \<longleftrightarrow> tagId \<in> set ids" for tagId
    unfolding list by (auto simp: ids_def)
  have sel: "set (select_tags_of_post d4 postId) = set rows"
  proof -
    have "set (select_tags_of_post d4 postId) = {t \<in> set (tags d4). t_id t \<in> set ids}"
      by (simp add: set_select_tags_of_post linked)
    also have "\<dots> = set rows"
    proof
      show "{t \<in> set (tags d4). t_id t \<in> set ids} \<subseteq> set rows"
      proof
        fix t
        assume "t \<in> {t \<in> set (tags d4). t_id t \<in> set ids}"
        then have t: "t \<in> set (tags d4)" and "t_id t \<in> t_id ` set rows"
          by (simp_all add: ids_def)
        then obtain t' where t': "t' \<in> set rows" "t_id t = t_id t'"
          by blast
        with named have "t' \<in> set (tags d4)"
          by blast
        with t t' dis2 t4 have "t = t'"
          by (metis distinct_map inj_onD)
        with t' show "t \<in> set rows"
          by simp
      qed
      show "set rows \<subseteq> {t \<in> set (tags d4). t_id t \<in> set ids}"
        using named by (auto simp: ids_def)
    qed
    finally show ?thesis .
  qed
  have one4: "\<forall>n\<in>set D. length (filter (\<lambda>t. t_name t = n) (tags d4)) = 1"
    using one t4 by simp
  from grow t4 have sub4: "set (tags d) \<subseteq> set (tags d4)"
    by auto
  have c1: "prop_of ''tags'' (JObj ob) =
             JArr (map (\<lambda>t. JObj (tag_star t)) (select_tags_of_post d4 postId))"
    using getPostById_tags [OF g] .
  have c2: "set (select_tags_of_post d4 postId) = {t \<in> set (tags d4). t_name t \<in> set D}"
    using sel named by simp
  have c3: "t_name ` set (select_tags_of_post d4 postId) = set D"
    using sel names by simp
  have c4: "\<forall>tagId. (postId, tagId) \<in> set (post_tags d4) \<longleftrightarrow>
              tagId \<in> t_id ` {t \<in> set (tags d4). t_name t \<in> set D}"
    using linked idset by simp
  have c5: "post_tags d4 =
             filter (\<lambda>r. fst r \<noteq> postId \<or> snd r \<in> t_id ` {t \<in> set (tags d4). t_name t \<in> set D})
               (post_tags d) @
             filter (\<lambda>r. r \<notin> set (post_tags d))
               (map (\<lambda>t. (postId, t_id t)) (select_tags_in d4 D))"
    using list idset rows4 by simp
  show ?thesis
    apply (rule exI [of _ ob])
    apply (rule exI [of _ d4])
    using res g c1 c2 c3 c4 c5 one4 sub4 p4 u4 by (intro conjI)
qed

theorem updatePost_reconciles_tags_witness:
  "wf_db example_store \<and> list_ex (\<lambda>p. p_id p = 1) (posts example_store) \<and>
   [''#a'', ''#c''] \<noteq> [] \<and>
   (\<exists>ob d'. updatePost example_store 1 [(''tags'', VList [''#a'', ''#c''])] =
               (Inr (JObj ob), d', []) \<and>
      t_name ` set (select_tags_of_post d' 1) = set [''#a'', ''#c''] \<and>
      post_tags example_store = [(1, 1), (1, 2)] \<and>
      post_tags d' = [(1, 1), (1, 4)])"
proof -
  have ex: "list_ex (\<lambda>p. p_id p = 1) (posts example_store)"
    by (simp add: example_store_def hello_def)
  have ne: "[''#a'', ''#c''] \<noteq> []"
    by simp
  from updatePost_reconciles_tags [OF example_store_wf ex ne] obtain ob d' where
    r: "updatePost example_store 1 [(''tags'', VList [''#a'', ''#c''])] = (Inr (JObj ob), d', [])"
    and n: "t_name ` set (select_tags_of_post d' 1) = set [''#a'', ''#c'']"
    by blast
  have "post_tags (fst (snd (updatePost example_store 1 [(''tags'', VList [''#a'', ''#c''])]))) =
          [(1, 1), (1, 4)]"
    by code_simp
  with r have after: "post_tags d' = [(1, 1), (1, 4)]"
    by simp
  have before: "post_tags example_store = [(1, 1), (1, 2)]"
    by (simp add: example_store_def)
  from example_store_wf ex ne r n before after show ?thesis
    by blast
qed

subsection \<open>The caller's field mapping\<close>

lemma join_nonempty: "x \<noteq> [] \<Longrightarrow> join sep (x # xs) \<noteq> []"
  by (cases xs) simp_all

lemma setString_empty_iff: "length (setString fs) > 0 \<longleftrightarrow> fs \<noteq> []"
proof (cases fs)
  case Nil
  then show ?thesis by (simp add: setString_def)
next
  case (Cons kv rest)
  obtain k v where kv: "kv = (k, v)"
    by (cases kv)
  have "zip (map fst fs) [0 ..< length fs] = (k, 0) # zip (map fst rest) [1 ..< Suc (length rest)]"
    using Cons kv by (simp add: upt_conv_Cons del: upt_Suc)
  then have "setString fs \<noteq> []"
    unfolding setString_def by (simp add: join_nonempty)
  with Cons show ?thesis by simp
qed

lemma delete_post_tags_frame:
  "delete_post_tags d ids postId = (r, d') \<Longrightarrow> posts d' = posts d \<and> users d' = users d"
  by (auto simp: delete_post_tags_def split: if_splits)

lemma addTagsToPost_users:
  "addTagsToPost d postId tagList = (r, d') \<Longrightarrow> users d' = users d"
  by (auto simp: addTagsToPost_def split: option.splits prod.splits dest: createPostTagPromises_frame)

lemma delete_prop_without_tags: "delete_prop ''tags'' fs = without_tags fs"
  by (simp add: delete_prop_def without_tags_def)

lemma updatePost_fields: "snd (snd (updatePost d postId fs)) = without_tags fs"
  unfolding updatePost_def Let_def delete_prop_without_tags
  by (simp split: prod.splits sum.splits option.splits fval.splits)

lemma updatePost_column_failure:
  assumes "without_tags fs \<noteq> []" and "update_posts d postId (without_tags fs) = (Inl err, d1)"
  shows "updatePost d postId fs = (Inl err, d1, without_tags fs)"
  using assms setString_empty_iff [of "without_tags fs"]
  by (simp add: updatePost_def Let_def delete_prop_without_tags)

lemma tag_stage_frame:
  assumes "(case v of VList ns \<Rightarrow> createTags d1 ns | VInt n \<Rightarrow> (Inl TypeError, d1)
              | VText s \<Rightarrow> (Inl TypeError, d1)) = (r, d2)"
  shows "posts d2 = posts d1 \<and> users d2 = users d1"
  using assms by (cases v) (auto dest: createTags_frame)

lemma updatePost_after_column:
  assumes col: "(if without_tags fs = [] then (Inr [], d) else update_posts d postId (without_tags fs))
                  = (Inr rows, d1)"
  shows "posts (fst (snd (updatePost d postId fs))) = posts d1 \<and>
         users (fst (snd (updatePost d postId fs))) = users d1"
proof -
  have c: "(if 0 < length (setString (without_tags fs)) then update_posts d postId (without_tags fs)
            else (Inr [], d)) = (Inr rows, d1)"
    using col setString_empty_iff [of "without_tags fs"] by (cases "without_tags fs = []") simp_all
  show ?thesis
  proof (cases "map_of fs ''tags''")
    case None
    with c show ?thesis
      by (simp add: updatePost_def Let_def delete_prop_without_tags)
  next
    case (Some v)
    obtain r2 d2 where t: "(case v of VList ns \<Rightarrow> createTags d1 ns | VInt n \<Rightarrow> (Inl TypeError, d1)
              | VText s \<Rightarrow> (Inl TypeError, d1)) = (r2, d2)"
      by (cases "(case v of VList ns \<Rightarrow> createTags d1 ns | VInt n \<Rightarrow> (Inl TypeError, d1)
              | VText s \<Rightarrow> (Inl TypeError, d1))")
    note f2 = tag_stage_frame [OF t]
    show ?thesis
    proof (cases r2)
      case (Inl err)
      with c Some t f2 show ?thesis
        by (simp add: updatePost_def Let_def delete_prop_without_tags)
    next
      case (Inr tl)
      show ?thesis
      proof (cases tl)
        case None
        with c Some t f2 Inr show ?thesis
          by (simp add: updatePost_def Let_def delete_prop_without_tags)
      next
        case (Some tagList)
        obtain r3 d3 where del: "delete_post_tags d2 (map t_id tagList) postId = (r3, d3)"
          by (cases "delete_post_tags d2 (map t_id tagList) postId")
        note f3 = delete_post_tags_frame [OF del]
        obtain r4 d4 where a: "addTagsToPost d3 postId (Some tagList) = (r4, d4)"
          by (cases "addTagsToPost d3 postId (Some tagList)")
        note f4 = addTagsToPost_frame [OF a] addTagsToPost_users [OF a]
        from c \<open>map_of fs ''tags'' = Some v\<close> t Inr Some del a f2 f3 f4 show ?thesis
          by (cases r3; cases r4) (simp_all add: updatePost_def Let_def delete_prop_without_tags)
      qed
    qed
  qed
qed

lemma updatePost_tags_not_usable:
  assumes col: "(if without_tags fs = [] then (Inr [], d) else update_posts d postId (without_tags fs))
                  = (Inr rows, d1)"
    and tg: "map_of fs ''tags'' = Some v" and bad: "v \<in> {VList []} \<or> (\<exists>s. v = VText s) \<or> (\<exists>n. v = VInt n)"
  shows "updatePost d postId fs = (Inl TypeError, d1, without_tags fs)"
proof -
  have c: "(if 0 < length (setString (without_tags fs)) then update_posts d postId (without_tags fs)
            else (Inr [], d)) = (Inr rows, d1)"
    using col setString_empty_iff [of "without_tags fs"] by (cases "without_tags fs = []") simp_all
  from bad c tg show ?thesis
    by (auto simp: updatePost_def Let_def delete_prop_without_tags createTags_def)
qed

lemma tags_only_succeeds:
  assumes wft: "wf_tags d" and ex: "list_ex (\<lambda>p. p_id p = postId) (posts d)" and ne: "D \<noteq> []"
  shows "\<exists>ob d'. updatePost d postId [(''tags'', VList D)] = (Inr (JObj ob), d', [])"
proof -
  from createTags_result [OF wft ne] obtain rows d2 where
    c: "createTags d D = (Inr (Some rows), d2)" and wf2: "wf_tags d2"
    and rows: "rows = select_tags_in d2 D"
    and names: "t_name ` set rows = set D"
    and fr2: "posts d2 = posts d"
    by blast
  from names ne have rne: "rows \<noteq> []"
    by auto
  obtain r3 d3 where del: "delete_post_tags d2 (map t_id rows) postId = (r3, d3)"
    by (cases "delete_post_tags d2 (map t_id rows) postId")
  with rne have r3: "r3 = Inr ()" and t3: "tags d3 = tags d2" and p3: "posts d3 = posts d2"
    by (auto simp: delete_post_tags_def)
  from ex fr2 p3 have in3: "postId \<in> set (map p_id (posts d3))"
    by (auto simp: list_ex_iff)
  from rows t3 have sub: "\<forall>t\<in>set rows. t_id t \<in> set (map t_id (tags d3))"
    by (auto simp: select_tags_in_def)
  from wf2 rows have dis: "distinct (map t_id rows)"
    by (simp add: wf_tags_def select_tags_in_def distinct_map_filter)
  from createPostTagPromises_links [OF in3 sub dis] obtain d4 where
    l: "createPostTagPromises d3 postId rows = (None, d4)"
    by blast
  from createPostTagPromises_frame [OF l] p3 fr2 ex have "list_ex (\<lambda>p. p_id p = postId) (posts d4)"
    by simp
  from getPostById_found [OF this] obtain ob where g: "getPostById d4 postId = Inr (JObj ob)"
    by blast
  from l g have a: "addTagsToPost d3 postId (Some rows) = (Inr (JObj ob), d4)"
    by (simp add: addTagsToPost_def)
  from c del r3 a g have "updatePost d postId [(''tags'', VList D)] = (Inr (JObj ob), d4, [])"
    by (simp add: updatePost_def delete_prop_def setString_def)
  then show ?thesis
    by blast
qed

lemma tags_only_no_StoreFailure:
  assumes "wf_tags d" and "list_ex (\<lambda>p. p_id p = postId) (posts d)"
  shows "fst (updatePost d postId [(''tags'', v)]) \<noteq> Inl StoreFailure"
proof (cases v)
  case (VList D)
  show ?thesis
  proof (cases "D = []")
    case True
    with VList show ?thesis
      by (simp add: updatePost_def delete_prop_def setString_def createTags_def)
  next
    case False
    from tags_only_succeeds [OF assms False] VList show ?thesis
      by auto
  qed
qed (simp_all add: updatePost_def delete_prop_def setString_def)

text \<open>
  Claim C10. updatePost deletes the \<open>tags\<close> key from the object it is given, and does so
  before it builds the column update. Whatever the outcome of the call, the caller's
  object is left as the entries it had under its other keys, in their order and with
  their values, and with no \<open>tags\<close> key. The column update is built from that object:
  when it has no entry no statement is issued; when it has entries and the store
  rejects the statement built from them, the call fails with that error on the store
  the statement left; when the statement succeeds, the posts and users tables after
  the call are the ones it left. The value that was under \<open>tags\<close> is used afterwards:
  when it is an empty array or no array, the call ends in a TypeError on the store the
  column update left. An object with the \<open>tags\<close> key alone never makes the store reject
  a statement, on a tags table that satisfies its constraints and for a post that exists.
\<close>

theorem updatePost_deletes_tags_key:
  "snd (snd (updatePost d postId fs)) = delete_prop ''tags'' fs \<and>
   snd (snd (updatePost d postId fs)) = without_tags fs \<and>
   ''tags'' \<notin> set (map fst (snd (snd (updatePost d postId fs)))) \<and>
   (\<forall>k. k \<noteq> ''tags'' \<longrightarrow> map_of (snd (snd (updatePost d postId fs))) k = map_of fs k) \<and>
   (without_tags fs \<noteq> [] \<and> update_posts d postId (without_tags fs) = (Inl err, d1) \<longrightarrow>
      updatePost d postId fs = (Inl err, d1, without_tags fs)) \<and>
   ((if without_tags fs = [] then (Inr [], d) else update_posts d postId (without_tags fs))
      = (Inr rows, d2) \<longrightarrow>
      posts (fst (snd (updatePost d postId fs))) = posts d2 \<and>
      users (fst (snd (updatePost d postId fs))) = users d2) \<and>
   ((if without_tags fs = [] then (Inr [], d) else update_posts d postId (without_tags fs))
      = (Inr rows, d2) \<and>
    map_of fs ''tags'' = Some v \<and> (v \<in> {VList []} \<or> (\<exists>s. v = VText s) \<or> (\<exists>n. v = VInt n)) \<longrightarrow>
      updatePost d postId fs = (Inl TypeError, d2, without_tags fs)) \<and>
   (wf_tags d \<and> list_ex (\<lambda>p. p_id p = postId) (posts d) \<longrightarrow>
      fst (updatePost d postId [(''tags'', w)]) \<noteq> Inl StoreFailure)"
proof -
  have 1: "snd (snd (updatePost d postId fs)) = delete_prop ''tags'' fs"
    by (simp add: updatePost_fields delete_prop_without_tags)
  have 2: "snd (snd (updatePost d postId fs)) = without_tags fs"
    by (rule updatePost_fields)
  have 3: "''tags'' \<notin> set (map fst (snd (snd (updatePost d postId fs))))"
    unfolding 2 by (auto simp: without_tags_def)
  have 4: "\<forall>k. k \<noteq> ''tags'' \<longrightarrow> map_of (snd (snd (updatePost d postId fs))) k = map_of fs k"
    unfolding 2 without_tags_def by (induction fs) auto
  have 5: "without_tags fs \<noteq> [] \<and> update_posts d postId (without_tags fs) = (Inl err, d1) \<longrightarrow>
      updatePost d postId fs = (Inl err, d1, without_tags fs)"
    using updatePost_column_failure by blast
  have 6: "(if without_tags fs = [] then (Inr [], d) else update_posts d postId (without_tags fs))
      = (Inr rows, d2) \<longrightarrow>
      posts (fst (snd (updatePost d postId fs))) = posts d2 \<and>
      users (fst (snd (updatePost d postId fs))) = users d2"
    using updatePost_after_column by blast
  have 7: "(if without_tags fs = [] then (Inr [], d) else update_posts d postId (without_tags fs))
      = (Inr rows, d2) \<and>
    map_of fs ''tags'' = Some v \<and> (v \<in> {VList []} \<or> (\<exists>s. v = VText s) \<or> (\<exists>n. v = VInt n)) \<longrightarrow>
      updatePost d postId fs = (Inl TypeError, d2, without_tags fs)"
    using updatePost_tags_not_usable by blast
  have 8: "wf_tags d \<and> list_ex (\<lambda>p. p_id p = postId) (posts d) \<longrightarrow>
      fst (updatePost d postId [(''tags'', w)]) \<noteq> Inl StoreFailure"
    using tags_only_no_StoreFailure by blast
  show ?thesis
    by (intro conjI 1 2 3 4 5 6 7 8)
qed

theorem updatePost_deletes_tags_key_witness:
  "without_tags [(''nope'', VInt 7), (''tags'', VList [''#a''])] \<noteq> [] \<and>
   update_posts example_store 1 (without_tags [(''nope'', VInt 7), (''tags'', VList [''#a''])]) =
     (Inl StoreFailure, example_store) \<and>
   updatePost example_store 1 [(''nope'', VInt 7), (''tags'', VList [''#a''])] =
     (Inl StoreFailure, example_store, [(''nope'', VInt 7)]) \<and>
   (\<exists>rows d2.
      update_posts example_store 1 (without_tags [(''title'', VText ''T''), (''tags'', VList [''#a''])]) =
        (Inr rows, d2) \<and>
      posts d2 = [hello\<lparr>p_title := ''T''\<rparr>] \<and>
      posts (fst (snd (updatePost example_store 1
                         [(''title'', VText ''T''), (''tags'', VList [''#a''])]))) = posts d2) \<and>
   map_of (snd (snd (updatePost example_store 1
                       [(''title'', VText ''T''), (''tags'', VList [''#a''])]))) ''title'' =
     Some (VText ''T'') \<and>
   map_of [(''tags'', VText ''x'')] ''tags'' = Some (VText ''x'') \<and>
   updatePost example_store 1 [(''tags'', VText ''x'')] = (Inl TypeError, example_store, []) \<and>
   wf_tags example_store \<and> list_ex (\<lambda>p. p_id p = 1) (posts example_store) \<and>
   fst (updatePost example_store 1 [(''tags'', VList [''#a''])]) \<noteq> Inl StoreFailure"
proof -
  let ?F1 = "[(''nope'', VInt 7), (''tags'', VList [''#a''])]"
  let ?F2 = "[(''title'', VText ''T''), (''tags'', VList [''#a''])]"
  let ?F3 = "[(''tags'', VText ''x'')]"
  have w1: "without_tags ?F1 = [(''nope'', VInt 7)]"
    by (simp add: without_tags_def)
  have ne1: "without_tags ?F1 \<noteq> []"
    by (simp add: w1)
  have u1: "update_posts example_store 1 (without_tags ?F1) = (Inl StoreFailure, example_store)"
    by (simp add: w1 update_posts_def set_clause_def post_column_def)
  from ne1 u1 updatePost_deletes_tags_key
         [where d = example_store and postId = 1 and fs = ?F1 and err = StoreFailure
            and ?d1.0 = example_store]
  have r1: "updatePost example_store 1 ?F1 = (Inl StoreFailure, example_store, [(''nope'', VInt 7)])"
    by (simp add: w1)
  have w2: "without_tags ?F2 = [(''title'', VText ''T'')]"
    by (simp add: without_tags_def)
  have "\<not> isl (fst (update_posts example_store 1 [(''title'', VText ''T'')]))"
    by code_simp
  then obtain rows d2 where u2: "update_posts example_store 1 [(''title'', VText ''T'')] = (Inr rows, d2)"
    using Inr_of_not_isl_fst by blast
  have "posts (snd (update_posts example_store 1 [(''title'', VText ''T'')])) = [hello\<lparr>p_title := ''T''\<rparr>]"
    by code_simp
  with u2 have p2: "posts d2 = [hello\<lparr>p_title := ''T''\<rparr>]"
    by simp
  from u2 w2 have c2: "(if without_tags ?F2 = [] then (Inr [], example_store)
                        else update_posts example_store 1 (without_tags ?F2)) = (Inr rows, d2)"
    by simp
  note t2 = updatePost_deletes_tags_key
         [where d = example_store and postId = 1 and fs = ?F2 and rows = rows and ?d2.0 = d2]
  from c2 t2 have r2: "posts (fst (snd (updatePost example_store 1 ?F2))) = posts d2"
    by blast
  note a4 = t2 [THEN conjunct2, THEN conjunct2, THEN conjunct2, THEN conjunct1, rule_format]
  have nk: "''title'' \<noteq> ''tags''"
    by simp
  from a4 [OF nk]
  have "map_of (snd (snd (updatePost example_store 1 ?F2))) ''title'' = map_of ?F2 ''title''" .
  then have m2: "map_of (snd (snd (updatePost example_store 1 ?F2))) ''title'' = Some (VText ''T'')"
    by simp
  have w3: "without_tags ?F3 = []"
    by (simp add: without_tags_def)
  have c3: "(if without_tags ?F3 = [] then (Inr [], example_store)
             else update_posts example_store 1 (without_tags ?F3)) = (Inr [], example_store)"
    by (simp add: w3)
  have g3: "map_of ?F3 ''tags'' = Some (VText ''x'')"
    by simp
  have b3: "VText ''x'' \<in> {VList []} \<or> (\<exists>s. VText ''x'' = VText s) \<or> (\<exists>n. VText ''x'' = VInt n)"
    by simp
  from c3 g3 b3 updatePost_deletes_tags_key
         [where d = example_store and postId = 1 and fs = ?F3 and rows = "[]"
            and ?d2.0 = example_store and v = "VText ''x''"]
  have r3: "updatePost example_store 1 ?F3 = (Inl TypeError, example_store, [])"
    by (simp add: w3)
  have wf: "wf_tags example_store"
    using example_store_wf by (simp add: wf_db_def)
  have ex: "list_ex (\<lambda>p. p_id p = 1) (posts example_store)"
    by (simp add: example_store_def hello_def)
  from wf ex updatePost_deletes_tags_key
         [where d = example_store and postId = 1 and w = "VList [''#a'']"]
  have r4: "fst (updatePost example_store 1 [(''tags'', VList [''#a''])]) \<noteq> Inl StoreFailure"
    by blast
  from u2 w2 have u2': "update_posts example_store 1 (without_tags ?F2) = (Inr rows, d2)"
    by simp
  from u2' p2 r2 have e2: "\<exists>rows d2.
      update_posts example_store 1 (without_tags ?F2) = (Inr rows, d2) \<and>
      posts d2 = [hello\<lparr>p_title := ''T''\<rparr>] \<and>
      posts (fst (snd (updatePost example_store 1 ?F2))) = posts d2"
    by blast
  show ?thesis
    by (intro conjI ne1 u1 r1 e2 m2 g3 r3 wf ex r4)
qed

subsection \<open>An empty tag list given to updatePost\<close>

text \<open>
  Claim C2. With \<open>tags: []\<close> createTags returns \<open>undefined\<close>, and updatePost calls \<open>map\<close>
  on it: on the small store, where post 1 carries two tags, the call ends in a
  TypeError and the join table still holds both rows. The claim says the tags are
  dropped.
\<close>

theorem updatePost_empty_tags_throws:
  "updatePost example_store 1 [(''tags'', VList [])] = (Inl TypeError, example_store, []) \<and>
   post_tags example_store = [(1, 1), (1, 2)]"
  by (simp add: updatePost_def setString_def delete_prop_def createTags_def example_store_def)

end
